theory Spec2Isabelle
  imports Main "HOL-Library.Word" "HOL-Library.List_Lexorder"
begin

section \<open>Byte strings\<close>

text \<open>
  A Go \<^verbatim>\<open>[]byte\<close> used as a key is a list of bytes; \<^verbatim>\<open>bytes.Compare\<close> is the
  lexicographic order on unsigned bytes, which is the order of lists of words.
\<close>

type_synonym byte = "8 word"
type_synonym bytes = "byte list"

section \<open>The node arena of the ART (internal/unionstore/art/art\_arena.go)\<close>

subsection \<open>The arena the allocator wraps\<close>

text \<open>
  Modelled from the spec: package \<^verbatim>\<open>arena\<close> (\<^verbatim>\<open>MemdbArenaAddr\<close>, \<^verbatim>\<open>NullAddr\<close>,
  \<^verbatim>\<open>IsNull\<close>, \<^verbatim>\<open>MemdbArena.Alloc\<close>, \<^verbatim>\<open>MemdbArena.GetData\<close>) is not part of the
  sources at hand. An arena address is an opaque identifier with one reserved
  sentinel \<open>NULL\<close> (3.1); the arena is append-only, \<open>alloc(size, zero)\<close> hands out a
  region of \<open>size\<close> bytes that is zeroed when \<open>zero\<close> is set, \<open>get(addr)\<close> returns the
  region allocated at \<open>addr\<close>, and an address that was never handed out is a caller
  bug (4.A). Blocks, alignment and capacity doubling only decide where a region
  lies in memory; here an address is the position of its region in the sequence
  of all regions handed out.
\<close>

datatype MemdbArenaAddr = NullAddr | Addr nat

definition IsNull :: "MemdbArenaAddr \<Rightarrow> bool" where
  "IsNull addr = (addr = NullAddr)"

text \<open>
  The header of a leaf, as \<^verbatim>\<open>allocLeaf\<close> writes it: \<^verbatim>\<open>klen\<close> is assigned through
  \<^verbatim>\<open>uint16(len(key))\<close>, so it is a 16-bit word. A region of the arena is either
  plain bytes (a fresh region, or the bytes of an inner node) or a leaf: the header
  fields followed by the bytes behind the header.
\<close>

record artLeaf =
  vAddr :: MemdbArenaAddr
  klen :: "16 word"
  flags :: "16 word"

datatype region = Raw bytes | Leaf artLeaf bytes

record MemdbArena =
  regions :: "region list"
  stale :: byte

text \<open>\<open>stale\<close> is what a region holds that was handed out without being zeroed.\<close>

definition Alloc ::
  "'a MemdbArena_scheme \<Rightarrow> nat \<Rightarrow> bool \<Rightarrow> (MemdbArenaAddr \<times> region) \<times> 'a MemdbArena_scheme"
where
  "Alloc a n zero =
     (let data = Raw (replicate n (if zero then 0 else stale a))
      in ((Addr (length (regions a)), data), a\<lparr>regions := regions a @ [data]\<rparr>))"

fun GetData :: "'a MemdbArena_scheme \<Rightarrow> MemdbArenaAddr \<Rightarrow> region option" where
  "GetData a NullAddr = None"
| "GetData a (Addr i) = (if i < length (regions a) then Some (regions a ! i) else None)"

text \<open>
  A pointer obtained by casting \<^verbatim>\<open>&data[0]\<close> aliases the arena: a write through it
  changes the region stored at the address.
\<close>

fun put_region :: "'a MemdbArena_scheme \<Rightarrow> MemdbArenaAddr \<Rightarrow> region \<Rightarrow> 'a MemdbArena_scheme" where
  "put_region a NullAddr r = a"
| "put_region a (Addr i) r = a\<lparr>regions := (regions a)[i := r]\<rparr>"

subsection \<open>Sizes and initialisation of the node types\<close>

text \<open>
  The constants \<^verbatim>\<open>node4size\<close>, \<^verbatim>\<open>node16size\<close>, \<^verbatim>\<open>node48size\<close>, \<^verbatim>\<open>node256size\<close> and
  \<^verbatim>\<open>leafSize\<close> are \<^verbatim>\<open>unsafe.Sizeof\<close> values declared with the node types, outside
  the sources at hand; the functions below take them as a parameter.
\<close>

record sizes =
  node4size :: nat
  node16size :: nat
  node48size :: nat
  node256size :: nat
  leafSize :: nat

text \<open>
  Modelled from the spec: the \<^verbatim>\<open>init\<close> methods of \<^verbatim>\<open>node4\<close>, \<^verbatim>\<open>node16\<close>, \<^verbatim>\<open>node48\<close>
  and \<^verbatim>\<open>node256\<close> are not part of the sources at hand. By 4.B an allocated node is
  always zero-initialized, so \<open>init\<close> clears the \<open>n\<close> bytes of the node. The result
  is \<open>None\<close> where the node does not fit the region, or the region holds a leaf:
  the cast then reads memory as a type it was not written as, a caller bug.
\<close>

fun node_init :: "nat \<Rightarrow> region \<Rightarrow> region option" where
  "node_init n (Raw bs) = (if n \<le> length bs then Some (Raw (replicate n 0 @ drop n bs)) else None)"
| "node_init n (Leaf lf bs) = None"

text \<open>\<^verbatim>\<open>&data[0]\<close> panics on an empty slice.\<close>

fun region_empty :: "region \<Rightarrow> bool" where
  "region_empty (Raw bs) = (bs = [])"
| "region_empty (Leaf lf bs) = False"

text \<open>Go's \<^verbatim>\<open>copy(dst, src)\<close> overwrites the first \<open>min (len dst) (len src)\<close> bytes of \<open>dst\<close>.\<close>

definition go_copy :: "'a list \<Rightarrow> 'a list \<Rightarrow> 'a list" where
  "go_copy dst src = take (length dst) src @ drop (length src) dst"

subsection \<open>The allocator\<close>

text \<open>
  The three free lists of \<^verbatim>\<open>nodeArena\<close> carry the suffix \<open>_list\<close>, since the methods
  \<^verbatim>\<open>freeNode4\<close>, \<^verbatim>\<open>freeNode16\<close> and \<^verbatim>\<open>freeNode48\<close> of the allocator have the same names.
\<close>

record nodeArena = MemdbArena +
  freeNode4_list :: "MemdbArenaAddr list"
  freeNode16_list :: "MemdbArenaAddr list"
  freeNode48_list :: "MemdbArenaAddr list"

record 'v artAllocator =
  vlogAllocator :: 'v
  nodeAllocator :: nodeArena

definition init :: "'v artAllocator \<Rightarrow> 'v artAllocator" where
  "init f = f\<lparr>nodeAllocator := (nodeAllocator f)\<lparr>freeNode4_list := [], freeNode16_list := [], freeNode48_list := []\<rparr>\<rparr>"

text \<open>
  Every function returns \<open>None\<close> where the Go code leaves the model: \<^verbatim>\<open>GetData\<close> of an
  address that was never handed out, \<^verbatim>\<open>&data[0]\<close> on an empty region, or \<^verbatim>\<open>init\<close>
  on a region that is not a node of this size. The node pointer that the Go
  function returns beside the address points at the region of that address, which
  is why the initialised node is stored back there.
\<close>

definition allocNode4 :: "sizes \<Rightarrow> 'v artAllocator \<Rightarrow> (MemdbArenaAddr \<times> 'v artAllocator) option" where
  "allocNode4 sz f =
     (let na = nodeAllocator f;
          ((addr, data), na1) =
            (if length (freeNode4_list na) > 0 then
               (let addr = last (freeNode4_list na);
                    na1 = na\<lparr>freeNode4_list := butlast (freeNode4_list na)\<rparr>
                in ((addr, GetData na1 addr), na1))
             else
               (let ((addr, data), na1) = Alloc na (node4size sz) True
                in ((addr, Some data), na1)))
      in case data of
           None \<Rightarrow> None
         | Some data \<Rightarrow>
             if region_empty data then None
             else (case node_init (node4size sz) data of
                     None \<Rightarrow> None
                   | Some n4 \<Rightarrow> Some (addr, f\<lparr>nodeAllocator := put_region na1 addr n4\<rparr>)))"

definition allocNode16 :: "sizes \<Rightarrow> 'v artAllocator \<Rightarrow> (MemdbArenaAddr \<times> 'v artAllocator) option" where
  "allocNode16 sz f =
     (let na = nodeAllocator f;
          ((addr, data), na1) =
            (if length (freeNode16_list na) > 0 then
               (let addr = last (freeNode16_list na);
                    na1 = na\<lparr>freeNode16_list := butlast (freeNode16_list na)\<rparr>
                in ((addr, GetData na1 addr), na1))
             else
               (let ((addr, data), na1) = Alloc na (node16size sz) True
                in ((addr, Some data), na1)))
      in case data of
           None \<Rightarrow> None
         | Some data \<Rightarrow>
             if region_empty data then None
             else (case node_init (node16size sz) data of
                     None \<Rightarrow> None
                   | Some n16 \<Rightarrow> Some (addr, f\<lparr>nodeAllocator := put_region na1 addr n16\<rparr>)))"

definition allocNode48 :: "sizes \<Rightarrow> 'v artAllocator \<Rightarrow> (MemdbArenaAddr \<times> 'v artAllocator) option" where
  "allocNode48 sz f =
     (let na = nodeAllocator f;
          ((addr, data), na1) =
            (if length (freeNode48_list na) > 0 then
               (let addr = last (freeNode48_list na);
                    na1 = na\<lparr>freeNode48_list := butlast (freeNode48_list na)\<rparr>
                in ((addr, GetData na1 addr), na1))
             else
               (let ((addr, data), na1) = Alloc na (node48size sz) True
                in ((addr, Some data), na1)))
      in case data of
           None \<Rightarrow> None
         | Some data \<Rightarrow>
             if region_empty data then None
             else (case node_init (node48size sz) data of
                     None \<Rightarrow> None
                   | Some n48 \<Rightarrow> Some (addr, f\<lparr>nodeAllocator := put_region na1 addr n48\<rparr>)))"

definition allocNode256 :: "sizes \<Rightarrow> 'v artAllocator \<Rightarrow> (MemdbArenaAddr \<times> 'v artAllocator) option" where
  "allocNode256 sz f =
     (let ((addr, data), na1) = Alloc (nodeAllocator f) (node256size sz) True
      in if region_empty data then None
         else (case node_init (node256size sz) data of
                 None \<Rightarrow> None
               | Some n256 \<Rightarrow> Some (addr, f\<lparr>nodeAllocator := put_region na1 addr n256\<rparr>)))"

text \<open>
  \<^verbatim>\<open>allocLeaf\<close> casts the fresh region to a leaf, assigns the three header fields
  and copies the key behind the header.
\<close>

definition allocLeaf :: "sizes \<Rightarrow> 'v artAllocator \<Rightarrow> bytes \<Rightarrow> (MemdbArenaAddr \<times> 'v artAllocator) option" where
  "allocLeaf sz f key =
     (let n = leafSize sz + length key;
          ((addr, data), na1) = Alloc (nodeAllocator f) n True
      in case data of
           Leaf lf bs \<Rightarrow> None
         | Raw bs \<Rightarrow>
             if region_empty data then None
             else
               (let lf = \<lparr>vAddr = NullAddr, klen = word_of_nat (length key), flags = 0\<rparr>;
                    behind = go_copy (drop (leafSize sz) bs) key
                in Some (addr, f\<lparr>nodeAllocator := put_region na1 addr (Leaf lf behind)\<rparr>)))"

text \<open>A leaf pointer: \<^verbatim>\<open>nil\<close>, or a pointer to the region at an arena address.\<close>

datatype leafPtr = NilLeaf | LeafAt MemdbArenaAddr

definition getLeaf :: "'v artAllocator \<Rightarrow> MemdbArenaAddr \<Rightarrow> leafPtr option" where
  "getLeaf f addr =
     (if IsNull addr then Some NilLeaf
      else (case GetData (nodeAllocator f) addr of
              None \<Rightarrow> None
            | Some data \<Rightarrow> if region_empty data then None else Some (LeafAt addr)))"

definition freeNode4 :: "'v artAllocator \<Rightarrow> MemdbArenaAddr \<Rightarrow> 'v artAllocator" where
  "freeNode4 f addr =
     f\<lparr>nodeAllocator := (nodeAllocator f)\<lparr>freeNode4_list := freeNode4_list (nodeAllocator f) @ [addr]\<rparr>\<rparr>"

definition freeNode16 :: "'v artAllocator \<Rightarrow> MemdbArenaAddr \<Rightarrow> 'v artAllocator" where
  "freeNode16 f addr =
     f\<lparr>nodeAllocator := (nodeAllocator f)\<lparr>freeNode16_list := freeNode16_list (nodeAllocator f) @ [addr]\<rparr>\<rparr>"

definition freeNode48 :: "'v artAllocator \<Rightarrow> MemdbArenaAddr \<Rightarrow> 'v artAllocator" where
  "freeNode48 f addr =
     f\<lparr>nodeAllocator := (nodeAllocator f)\<lparr>freeNode48_list := freeNode48_list (nodeAllocator f) @ [addr]\<rparr>\<rparr>"


subsection \<open>What the allocator relies on, and what it promises\<close>

text \<open>
  The addresses on the size-\<open>K\<close> free list were handed to \<^verbatim>\<open>freeNodeK\<close> by the tree:
  each is the address of a region of \<open>nodeKsize\<close> bytes. The node sizes are positive.
\<close>

fun node_region :: "'a MemdbArena_scheme \<Rightarrow> nat \<Rightarrow> MemdbArenaAddr \<Rightarrow> bool" where
  "node_region a n addr = (case GetData a addr of Some (Raw bs) \<Rightarrow> length bs = n | _ \<Rightarrow> False)"

definition free_lists_ok :: "sizes \<Rightarrow> 'v artAllocator \<Rightarrow> bool" where
  "free_lists_ok sz f =
     (0 < node4size sz \<and> 0 < node16size sz \<and> 0 < node48size sz \<and> 0 < node256size sz \<and>
      list_all (node_region (nodeAllocator f) (node4size sz)) (freeNode4_list (nodeAllocator f)) \<and>
      list_all (node_region (nodeAllocator f) (node16size sz)) (freeNode16_list (nodeAllocator f)) \<and>
      list_all (node_region (nodeAllocator f) (node48size sz)) (freeNode48_list (nodeAllocator f)))"

definition zero_node :: "'a MemdbArena_scheme \<Rightarrow> nat \<Rightarrow> MemdbArenaAddr \<Rightarrow> bool" where
  "zero_node a n addr = (GetData a addr = Some (Raw (replicate n 0)))"

definition others_kept :: "'a MemdbArena_scheme \<Rightarrow> 'b MemdbArena_scheme \<Rightarrow> MemdbArenaAddr \<Rightarrow> bool" where
  "others_kept a a' addr =
     (\<forall>i < length (regions a). Addr i \<noteq> addr \<longrightarrow> GetData a' (Addr i) = GetData a (Addr i))"

text \<open>
  \<open>reused_node\<close>: the address is the one freed last, it leaves the free list, the arena
  does not grow, and the node at the address is zero. \<open>fresh_node\<close>: the address was
  not handed out before, the arena grows by one region, and the node is zero.
\<close>

definition reused_node ::
  "nat \<Rightarrow> nodeArena \<Rightarrow> MemdbArenaAddr list \<Rightarrow> nodeArena \<Rightarrow> MemdbArenaAddr list \<Rightarrow> MemdbArenaAddr \<Rightarrow> bool"
where
  "reused_node n a free a' free' addr =
     (addr = last free \<and> free' = butlast free \<and>
      length (regions a') = length (regions a) \<and>
      zero_node a' n addr \<and> others_kept a a' addr)"

definition fresh_node :: "nat \<Rightarrow> nodeArena \<Rightarrow> nodeArena \<Rightarrow> MemdbArenaAddr \<Rightarrow> bool" where
  "fresh_node n a a' addr =
     (addr = Addr (length (regions a)) \<and> GetData a addr = None \<and>
      length (regions a') = Suc (length (regions a)) \<and>
      zero_node a' n addr \<and> others_kept a a' addr)"

subsection \<open>A concrete allocator\<close>

definition ex_sizes :: sizes where
  "ex_sizes = \<lparr>node4size = 52, node16size = 168, node48size = 664, node256size = 2072, leafSize = 12\<rparr>"

definition ex_alloc :: "unit artAllocator" where
  "ex_alloc = \<lparr>vlogAllocator = (), nodeAllocator =
     \<lparr>regions = [], stale = 170, freeNode4_list = [], freeNode16_list = [], freeNode48_list = []\<rparr>\<rparr>"

text \<open>One region of four bytes that was used and freed as a \<open>node4\<close> of four bytes.\<close>

definition tiny_sizes :: sizes where
  "tiny_sizes = \<lparr>node4size = 4, node16size = 16, node48size = 48, node256size = 256, leafSize = 12\<rparr>"

definition used_alloc :: "unit artAllocator" where
  "used_alloc = \<lparr>vlogAllocator = (), nodeAllocator =
     \<lparr>regions = [Raw [1, 2, 3, 4]], stale = 170,
      freeNode4_list = [Addr 0], freeNode16_list = [], freeNode48_list = []\<rparr>\<rparr>"

section \<open>Errors (package error, in txnkv/client.go)\<close>

text \<open>
  The error values the modelled code returns or tests for. \<^verbatim>\<open>ErrNotExist\<close> is the
  sentinel made by \<^verbatim>\<open>errors.New("not exist")\<close>; \<open>OtherError\<close> stands for every other
  error value, named by its message; \<open>WithStack\<close> is the wrapper of
  \<^verbatim>\<open>errors.WithStack\<close>, which \<^verbatim>\<open>errors.Is\<close> looks through. A Go \<^verbatim>\<open>error\<close> that may be
  \<^verbatim>\<open>nil\<close> is an \<open>error option\<close>.
\<close>

datatype error =
    ErrNotExist
  | ErrTxnTooLarge int
  | ErrKeyTooLarge int
  | ErrEntryTooLarge "64 word" "64 word"
  | Canceled
  | DeadlineExceeded
  | OtherError string
  | WithStack error

fun unwraps_to :: "error \<Rightarrow> error \<Rightarrow> bool" where
  "unwraps_to (WithStack e) target = (WithStack e = target \<or> unwraps_to e target)"
| "unwraps_to e target = (e = target)"

fun errors_Is :: "error option \<Rightarrow> error \<Rightarrow> bool" where
  "errors_Is None target = False"
| "errors_Is (Some e) target = unwraps_to e target"

definition IsErrNotFound :: "error option \<Rightarrow> bool" where
  "IsErrNotFound err = errors_Is err ErrNotExist"

section \<open>The union store (internal/unionstore/union\_store.go)\<close>

text \<open>
  A value returned by \<^verbatim>\<open>Get\<close> is a \<^verbatim>\<open>[]byte\<close> that may be \<^verbatim>\<open>nil\<close>: \<open>None\<close> is \<^verbatim>\<open>nil\<close>,
  and \<^verbatim>\<open>len\<close> of it is 0.
\<close>

type_synonym val = "bytes option"

fun len :: "val \<Rightarrow> nat" where
  "len None = 0"
| "len (Some bs) = length bs"

text \<open>
  \<^verbatim>\<open>bytes.Compare\<close>: \<open>-1\<close>, \<open>0\<close> or \<open>1\<close> by the lexicographic order of the bytes.
\<close>

definition Compare :: "bytes \<Rightarrow> bytes \<Rightarrow> int" where
  "Compare a b = (if a < b then - 1 else if a = b then 0 else 1)"

text \<open>
  The \<^verbatim>\<open>Iterator\<close> interface (\<^verbatim>\<open>Valid\<close>, \<^verbatim>\<open>Key\<close>, \<^verbatim>\<open>Value\<close>, \<^verbatim>\<open>Next\<close>, \<^verbatim>\<open>Close\<close>), seen
  from its user: the entries it yields from its position on, in the order it yields
  them. It is valid while the list is not empty, the head is its current key and
  value, and \<^verbatim>\<open>Next\<close> moves to the tail.
\<close>

type_synonym Iterator = "(bytes \<times> bytes) list"

text \<open>
  Modelled from the spec: package \<^verbatim>\<open>kv\<close> (\<^verbatim>\<open>KeyFlags\<close>, \<^verbatim>\<open>FlagsOp\<close>,
  \<^verbatim>\<open>DelPresumeKeyNotExists\<close>, \<^verbatim>\<open>KeyFlags.HasPresumeKeyNotExists\<close>) is not part of the
  sources at hand. By 3.5 the key flags are a small set of recognised bits, whose
  layout is free, and a flag operation is an additive or a subtractive delta.
\<close>

datatype flag = PresumeKeyNotExists | KeyLocked | NeedLocked | NeedCheckExists
  | NoNeedCommit | AssertExists | AssertNotExists | NewlyInserted

type_synonym KeyFlags = "flag set"

datatype FlagsOp = SetFlag flag | DelFlag flag

definition DelPresumeKeyNotExists :: FlagsOp where
  "DelPresumeKeyNotExists = DelFlag PresumeKeyNotExists"

definition KeyFlags_HasPresumeKeyNotExists :: "KeyFlags \<Rightarrow> bool" where
  "KeyFlags_HasPresumeKeyNotExists fl = (PresumeKeyNotExists \<in> fl)"

text \<open>
  The interfaces \<^verbatim>\<open>uSnapshot\<close> and \<^verbatim>\<open>MemBuffer\<close>, as records of their methods. A
  snapshot is read-only. A \<^verbatim>\<open>MemBuffer\<close> value carries the state \<open>mb_state\<close> of the
  buffer it points to; its methods take the state and, where they write, return
  the new one. Only the methods that the union store calls are listed, and \<^verbatim>\<open>Set\<close>.
  A method that returns \<^verbatim>\<open>(x, error)\<close> and whose \<open>x\<close> is dropped on an error returns a
  sum; \<^verbatim>\<open>Get\<close>, whose value the union store hands on beside the error, and
  \<^verbatim>\<open>GetFlags\<close> return both.
\<close>

record 'c uSnapshot =
  snap_Get :: "'c \<Rightarrow> bytes \<Rightarrow> val \<times> error option"
  snap_Iter :: "bytes \<Rightarrow> bytes \<Rightarrow> error + Iterator"
  snap_IterReverse :: "bytes \<Rightarrow> bytes \<Rightarrow> error + Iterator"

record ('s, 'c) MemBuffer =
  mb_state :: 's
  mb_Get :: "'s \<Rightarrow> 'c \<Rightarrow> bytes \<Rightarrow> val \<times> error option"
  mb_GetFlags :: "'s \<Rightarrow> bytes \<Rightarrow> KeyFlags \<times> error option"
  mb_Set :: "'s \<Rightarrow> bytes \<Rightarrow> bytes \<Rightarrow> 's \<times> error option"
  mb_UpdateFlags :: "'s \<Rightarrow> bytes \<Rightarrow> FlagsOp list \<Rightarrow> 's"
  mb_Iter :: "'s \<Rightarrow> bytes \<Rightarrow> bytes \<Rightarrow> error + Iterator"
  mb_IterReverse :: "'s \<Rightarrow> bytes \<Rightarrow> bytes \<Rightarrow> error + Iterator"
  mb_SetEntrySizeLimit :: "'s \<Rightarrow> 64 word \<Rightarrow> 64 word \<Rightarrow> 's"

record ('s, 'c) KVUnionStore =
  memBuffer :: "('s, 'c) MemBuffer"
  snapshot :: "'c uSnapshot"

definition NewUnionStore :: "('s, 'c) MemBuffer \<Rightarrow> 'c uSnapshot \<Rightarrow> ('s, 'c) KVUnionStore" where
  "NewUnionStore mb snap = \<lparr>memBuffer = mb, snapshot = snap\<rparr>"

definition GetMemBuffer :: "('s, 'c) KVUnionStore \<Rightarrow> ('s, 'c) MemBuffer" where
  "GetMemBuffer us = memBuffer us"

text \<open>
  \<^verbatim>\<open>Get\<close> returns its pair and, as its effect, the lookups it made, in order.
\<close>

datatype lookup = BufferGet bytes | SnapshotGet bytes

definition Get :: "('s, 'c) KVUnionStore \<Rightarrow> 'c \<Rightarrow> bytes \<Rightarrow> (val \<times> error option) \<times> lookup list" where
  "Get us ctx k =
     (let (v, err) = mb_Get (memBuffer us) (mb_state (memBuffer us)) ctx k;
          ((v, err), made) =
            (if IsErrNotFound err
             then (snap_Get (snapshot us) ctx k, [BufferGet k, SnapshotGet k])
             else ((v, err), [BufferGet k]))
      in if err \<noteq> None then ((v, err), made)
         else if len v = 0 then ((None, Some ErrNotExist), made)
         else ((v, None), made))"

text \<open>
  Modelled from the spec: \<^verbatim>\<open>NewUnionIter\<close> and the \<^verbatim>\<open>UnionIter\<close> it builds are not
  part of the sources at hand. By 4.G the union iterator looks at the current key
  of each side and emits the one that comes first in the direction of the scan; on
  equal keys it emits the buffer's entry and advances both sides; an emission
  whose buffer value is empty is skipped; when one side is exhausted the other
  side remains, the buffer's entries still without the empty ones. The reverse
  direction negates the comparison.
\<close>

definition cmp_dir :: "bool \<Rightarrow> bytes \<Rightarrow> bytes \<Rightarrow> int" where
  "cmp_dir reverse dirtyKey snapshotKey =
     (if reverse then - Compare dirtyKey snapshotKey else Compare dirtyKey snapshotKey)"

fun emit_dirty :: "bytes \<times> bytes \<Rightarrow> Iterator \<Rightarrow> Iterator" where
  "emit_dirty (k, v) rest = (if v = [] then rest else (k, v) # rest)"

fun union_entries :: "bool \<Rightarrow> Iterator \<Rightarrow> Iterator \<Rightarrow> Iterator" where
  "union_entries reverse [] snapshotIt = snapshotIt"
| "union_entries reverse (d # dirtyIt) [] = emit_dirty d (union_entries reverse dirtyIt [])"
| "union_entries reverse (d # dirtyIt) (s # snapshotIt) =
     (if cmp_dir reverse (fst d) (fst s) < 0
      then emit_dirty d (union_entries reverse dirtyIt (s # snapshotIt))
      else if cmp_dir reverse (fst d) (fst s) > 0
      then s # union_entries reverse (d # dirtyIt) snapshotIt
      else emit_dirty d (union_entries reverse dirtyIt snapshotIt))"

definition NewUnionIter :: "Iterator \<Rightarrow> Iterator \<Rightarrow> bool \<Rightarrow> error + Iterator" where
  "NewUnionIter dirtyIt snapshotIt reverse = Inr (union_entries reverse dirtyIt snapshotIt)"

definition Iter :: "('s, 'c) KVUnionStore \<Rightarrow> bytes \<Rightarrow> bytes \<Rightarrow> error + Iterator" where
  "Iter us k upperBound =
     (case mb_Iter (memBuffer us) (mb_state (memBuffer us)) k upperBound of
        Inl err \<Rightarrow> Inl err
      | Inr bufferIt \<Rightarrow>
          (case snap_Iter (snapshot us) k upperBound of
             Inl err \<Rightarrow> Inl err
           | Inr retrieverIt \<Rightarrow> NewUnionIter bufferIt retrieverIt False))"

definition IterReverse :: "('s, 'c) KVUnionStore \<Rightarrow> bytes \<Rightarrow> bytes \<Rightarrow> error + Iterator" where
  "IterReverse us k lowerBound =
     (case mb_IterReverse (memBuffer us) (mb_state (memBuffer us)) k lowerBound of
        Inl err \<Rightarrow> Inl err
      | Inr bufferIt \<Rightarrow>
          (case snap_IterReverse (snapshot us) k lowerBound of
             Inl err \<Rightarrow> Inl err
           | Inr retrieverIt \<Rightarrow> NewUnionIter bufferIt retrieverIt True))"

definition HasPresumeKeyNotExists :: "('s, 'c) KVUnionStore \<Rightarrow> bytes \<Rightarrow> bool" where
  "HasPresumeKeyNotExists us k =
     (let (flags, err) = mb_GetFlags (memBuffer us) (mb_state (memBuffer us)) k
      in if err \<noteq> None then False else KeyFlags_HasPresumeKeyNotExists flags)"

definition UnmarkPresumeKeyNotExists :: "('s, 'c) KVUnionStore \<Rightarrow> bytes \<Rightarrow> ('s, 'c) KVUnionStore" where
  "UnmarkPresumeKeyNotExists us k =
     us\<lparr>memBuffer := (memBuffer us)\<lparr>mb_state :=
          mb_UpdateFlags (memBuffer us) (mb_state (memBuffer us)) k [DelPresumeKeyNotExists]\<rparr>\<rparr>"

text \<open>
  Modelled from the spec: the constant \<^verbatim>\<open>unlimitedSize\<close> is declared outside the
  sources at hand. By 4.F it is the sentinel that disables a limit; it is taken to
  be the largest \<^verbatim>\<open>uint64\<close>.
\<close>

definition unlimitedSize :: "64 word" where
  "unlimitedSize = - 1"

definition SetEntrySizeLimit :: "('s, 'c) KVUnionStore \<Rightarrow> 64 word \<Rightarrow> 64 word \<Rightarrow> ('s, 'c) KVUnionStore" where
  "SetEntrySizeLimit us entryLimit bufferLimit =
     (let entryLimit = (if entryLimit = 0 then unlimitedSize else entryLimit);
          bufferLimit = (if bufferLimit = 0 then unlimitedSize else bufferLimit)
      in us\<lparr>memBuffer := (memBuffer us)\<lparr>mb_state :=
           mb_SetEntrySizeLimit (memBuffer us) (mb_state (memBuffer us)) entryLimit bufferLimit\<rparr>\<rparr>)"

section \<open>The MemBuffer behind the interface\<close>


record memdb =
  leaves :: "bytes \<rightharpoonup> KeyFlags"
  vlog :: "(bytes \<times> bytes) list"
  stages :: "nat list"
  entrySizeLimit :: "64 word"
  bufferSizeLimit :: "64 word"
  generation :: nat

text \<open>
  Modelled from the spec: \<open>get\<close> follows the head of the key and returns the value
  of the record, and an empty value is a tombstone, so the key is missing;
  \<open>get_flags\<close> of a key without a leaf is missing. Missing is the error \<open>NotExist\<close>
  (4.D, 7).
\<close>

definition head_of :: "(bytes \<times> bytes) list \<Rightarrow> bytes \<Rightarrow> bytes option" where
  "head_of log k = map_of (rev log) k"

definition memdb_Get :: "memdb \<Rightarrow> 'c \<Rightarrow> bytes \<Rightarrow> val \<times> error option" where
  "memdb_Get db ctx k =
     (case head_of (vlog db) k of
        None \<Rightarrow> (None, Some ErrNotExist)
      | Some v \<Rightarrow> if v = [] then (None, Some ErrNotExist) else (Some v, None))"

definition memdb_GetFlags :: "memdb \<Rightarrow> bytes \<Rightarrow> KeyFlags \<times> error option" where
  "memdb_GetFlags db k =
     (case leaves db k of None \<Rightarrow> ({}, Some ErrNotExist) | Some fl \<Rightarrow> (fl, None))"

text \<open>
  Modelled from the spec: \<open>set\<close> fails with \<open>EntryTooLarge\<close> if \<open>len(key) + len(value)\<close>
  exceeds the per-entry limit, and with \<open>TxnTooLarge\<close> if the cumulative bytes of
  the buffer would exceed the total limit; the state is then as it was; the
  sentinel \<open>unlimited\<close> disables a limit (4.F, 8.2). Otherwise \<open>set\<close> locates or
  creates the leaf and appends a record, which becomes the head; \<open>delete\<close> is \<open>set\<close>
  of the empty value; \<open>update_flags\<close> materialises the leaf if needed and applies
  the deltas in order (4.D). Every mutation bumps the generation of the index.
\<close>

definition memdb_Size :: "memdb \<Rightarrow> nat" where
  "memdb_Size db = sum_list (map (\<lambda>(k, v). length k + length v) (vlog db))"

definition bump :: "memdb \<Rightarrow> memdb" where
  "bump db = db\<lparr>generation := Suc (generation db)\<rparr>"

definition materialize :: "memdb \<Rightarrow> bytes \<Rightarrow> memdb" where
  "materialize db k = (case leaves db k of None \<Rightarrow> db\<lparr>leaves := (leaves db)(k \<mapsto> {})\<rparr> | Some fl \<Rightarrow> db)"

definition memdb_Set :: "memdb \<Rightarrow> bytes \<Rightarrow> bytes \<Rightarrow> memdb \<times> error option" where
  "memdb_Set db k v =
     (if entrySizeLimit db \<noteq> unlimitedSize \<and> unat (entrySizeLimit db) < length k + length v
      then (db, Some (ErrEntryTooLarge (entrySizeLimit db) (word_of_nat (length k + length v))))
      else if bufferSizeLimit db \<noteq> unlimitedSize \<and>
              unat (bufferSizeLimit db) < memdb_Size db + (length k + length v)
      then (db, Some (ErrTxnTooLarge (int (memdb_Size db + (length k + length v)))))
      else (bump ((materialize db k)\<lparr>vlog := vlog db @ [(k, v)]\<rparr>), None))"

definition memdb_Delete :: "memdb \<Rightarrow> bytes \<Rightarrow> memdb \<times> error option" where
  "memdb_Delete db k = memdb_Set db k []"

fun apply_flags_op :: "FlagsOp \<Rightarrow> KeyFlags \<Rightarrow> KeyFlags" where
  "apply_flags_op (SetFlag fl) fs = insert fl fs"
| "apply_flags_op (DelFlag fl) fs = fs - {fl}"

definition memdb_UpdateFlags :: "memdb \<Rightarrow> bytes \<Rightarrow> FlagsOp list \<Rightarrow> memdb" where
  "memdb_UpdateFlags db k ops =
     (let db1 = materialize db k
      in bump (db1\<lparr>leaves := (leaves db1)(k \<mapsto> fold apply_flags_op ops (the (leaves db1 k)))\<rparr>))"

definition memdb_SetEntrySizeLimit :: "memdb \<Rightarrow> 64 word \<Rightarrow> 64 word \<Rightarrow> memdb" where
  "memdb_SetEntrySizeLimit db entryLimit bufferLimit =
     db\<lparr>entrySizeLimit := entryLimit, bufferSizeLimit := bufferLimit\<rparr>"





definition memdb_Checkpoint :: "memdb \<Rightarrow> nat" where
  "memdb_Checkpoint db = length (vlog db)"


text \<open>
  Modelled from the spec: the ordered scan of 4.D over half-open bounds, an empty
  bound being no bound: the keys that have a head, each with the value of its head
  (the union iterator of 4.G needs the tombstones of the buffer, so they are not
  left out here).
\<close>

definition in_bounds :: "bytes \<Rightarrow> bytes \<Rightarrow> bytes \<Rightarrow> bool" where
  "in_bounds lower upper k = ((lower = [] \<or> lower \<le> k) \<and> (upper = [] \<or> k < upper))"

definition scan :: "memdb \<Rightarrow> bytes \<Rightarrow> bytes \<Rightarrow> bool \<Rightarrow> Iterator" where
  "scan db lower upper reverse =
     (let keys = sort (remdups (filter (in_bounds lower upper) (map fst (vlog db))));
          entries = map (\<lambda>k. (k, the (head_of (vlog db) k))) keys
      in if reverse then rev entries else entries)"

text \<open>
  Modelled from the spec: the iterators of the buffer are not part of the sources
  at hand. An iterator holds the generation of the index at its creation and the
  entries from its position on; \<open>valid\<close> is true while a leaf is in view and \<open>next\<close>
  moves to the next leaf inside the bounds (4.D). The iterator is invalidated by
  any mutation: a generation counter on the index is checked when the iterator is
  used, and a use after a mutation returns the error \<open>IteratorInvalidated\<close>, one
  of the error kinds of section 7 (4.D, 5, 7, 8.1). The spec does not say what the
  key and the value are when no leaf is in view: \<open>None\<close> here. \<open>advance\<close> calls
  \<open>next\<close> a number of times, stopping at the first error.
\<close>

datatype iterator_error = IteratorInvalidated

record memdbIter =
  it_generation :: nat
  it_entries :: Iterator

definition memdb_Iter :: "memdb \<Rightarrow> bytes \<Rightarrow> bytes \<Rightarrow> memdbIter" where
  "memdb_Iter db k upperBound = \<lparr>it_generation = generation db, it_entries = scan db k upperBound False\<rparr>"

definition memdb_IterReverse :: "memdb \<Rightarrow> bytes \<Rightarrow> bytes \<Rightarrow> memdbIter" where
  "memdb_IterReverse db k lowerBound = \<lparr>it_generation = generation db, it_entries = scan db lowerBound k True\<rparr>"




definition it_Next :: "memdb \<Rightarrow> memdbIter \<Rightarrow> iterator_error + memdbIter" where
  "it_Next db it =
     (if it_generation it \<noteq> generation db then Inl IteratorInvalidated
      else Inr (it\<lparr>it_entries := tl (it_entries it)\<rparr>))"

fun advance :: "memdb \<Rightarrow> nat \<Rightarrow> memdbIter \<Rightarrow> iterator_error + memdbIter" where
  "advance db 0 it = Inr it"
| "advance db (Suc n) it = (case it_Next db it of Inl e \<Rightarrow> Inl e | Inr it' \<Rightarrow> advance db n it')"





text \<open>The buffer as a \<^verbatim>\<open>MemBuffer\<close> value.\<close>

definition memdb_buffer :: "memdb \<Rightarrow> (memdb, 'c) MemBuffer" where
  "memdb_buffer db =
     \<lparr>mb_state = db, mb_Get = memdb_Get, mb_GetFlags = memdb_GetFlags, mb_Set = memdb_Set,
      mb_UpdateFlags = memdb_UpdateFlags,
      mb_Iter = (\<lambda>s k upperBound. Inr (it_entries (memdb_Iter s k upperBound))),
      mb_IterReverse = (\<lambda>s k lowerBound. Inr (it_entries (memdb_IterReverse s k lowerBound))),
      mb_SetEntrySizeLimit = memdb_SetEntrySizeLimit\<rparr>"

definition empty_memdb :: memdb where
  "empty_memdb = \<lparr>leaves = Map.empty, vlog = [], stages = [],
     entrySizeLimit = unlimitedSize, bufferSizeLimit = unlimitedSize, generation = 0\<rparr>"

section \<open>Concrete stores\<close>

text \<open>
  An iterator is ordered in its direction when each key comes strictly before the
  next as the union iterator compares them.
\<close>

definition ordered :: "bool \<Rightarrow> Iterator \<Rightarrow> bool" where
  "ordered reverse it = sorted_wrt (\<lambda>a b. cmp_dir reverse a b < 0) (map fst it)"

text \<open>
  What the union of a buffer iterator \<open>B\<close> and a snapshot iterator \<open>S\<close> has to
  yield: the entries of \<open>B\<close> whose value is not empty and the entries of \<open>S\<close> whose
  key \<open>B\<close> does not hold, in the order of the direction.
\<close>

definition yields_union :: "bool \<Rightarrow> Iterator \<Rightarrow> Iterator \<Rightarrow> Iterator \<Rightarrow> bool" where
  "yields_union reverse B S U =
     (ordered reverse U \<and>
      set U = {(k, v). (k, v) \<in> set B \<and> v \<noteq> []} \<union> {(k, v). (k, v) \<in> set S \<and> k \<notin> fst ` set B})"

text \<open>
  The snapshot and the buffer of scenario 4 of the spec (8.2): the snapshot holds
  \<open>a\<close>, \<open>b\<close> and \<open>c\<close> with value \<open>S\<close>; the buffer has written \<open>B\<close> to \<open>a\<close> and deleted \<open>b\<close>.
\<close>

definition snapshot_of :: "Iterator \<Rightarrow> unit uSnapshot" where
  "snapshot_of entries =
     \<lparr>snap_Get = (\<lambda>ctx k. case map_of entries k of
                             None \<Rightarrow> (None, Some ErrNotExist)
                           | Some v \<Rightarrow> (Some v, None)),
      snap_Iter = (\<lambda>k upperBound. Inr (filter (\<lambda>e. in_bounds k upperBound (fst e)) entries)),
      snap_IterReverse = (\<lambda>k lowerBound. Inr (rev (filter (\<lambda>e. in_bounds lowerBound k (fst e)) entries)))\<rparr>"

definition ex_snapshot :: "unit uSnapshot" where
  "ex_snapshot = snapshot_of [([97], [83]), ([98], [83]), ([99], [83])]"

definition ex_memdb :: memdb where
  "ex_memdb = fst (memdb_Delete (fst (memdb_Set empty_memdb [97] [66])) [98])"

text \<open>
  A second buffer over the same state, whose \<^verbatim>\<open>Get\<close> hands out the value of the head
  as it is, empty for a deleted key; and a third one, whose \<^verbatim>\<open>Get\<close> fails.
\<close>

definition raw_buffer :: "memdb \<Rightarrow> (memdb, unit) MemBuffer" where
  "raw_buffer db = (memdb_buffer db)
     \<lparr>mb_Get := (\<lambda>s ctx k. case head_of (vlog s) k of
                             None \<Rightarrow> (None, Some ErrNotExist)
                           | Some v \<Rightarrow> (Some v, None))\<rparr>"

definition failing_buffer :: "memdb \<Rightarrow> (memdb, unit) MemBuffer" where
  "failing_buffer db = (memdb_buffer db)\<lparr>mb_Get := (\<lambda>s ctx k. (None, Some (OtherError ''flush failed'')))\<rparr>"

definition ex_store :: "(memdb, unit) KVUnionStore" where
  "ex_store = NewUnionStore (raw_buffer ex_memdb) ex_snapshot"

section \<open>The range task runner (txnkv/rangetask/range\_task.go)\<close>

record KeyRange =
  StartKey :: bytes
  EndKey :: bytes

record TaskStat =
  CompletedRegions :: int
  FailedRegions :: int

text \<open>
  A \<^verbatim>\<open>context.Context\<close> as its user sees it at one moment: the value of \<^verbatim>\<open>ctx.Err()\<close>,
  \<^verbatim>\<open>nil\<close> until the context is done (\<^verbatim>\<open>ctx.Done()\<close> is readable exactly when it is
  not \<^verbatim>\<open>nil\<close>).
\<close>

type_synonym Context = "error option"

type_synonym TaskHandler = "Context \<Rightarrow> KeyRange \<Rightarrow> TaskStat \<times> error option"

text \<open>
  The store is used for one call only:
  \<^verbatim>\<open>GetRegionCache().BatchLoadRegionsFromKey(bo, key, count)\<close>, which loads \<open>count\<close>
  regions from \<open>key\<close> on and returns the end key of the last one, empty when that
  region is unbounded. The region cache is outside the sources at hand and is a
  parameter here.
\<close>

record storage =
  BatchLoadRegionsFromKey :: "bytes \<Rightarrow> int \<Rightarrow> error + bytes"

text \<open>The field \<^verbatim>\<open>statLogInterval\<close> of the runner only paces the logging and is left out.\<close>

record Runner =
  name :: string
  "identifier" :: string
  store :: storage
  concurrency :: int
  handler :: TaskHandler
  regionsPerTask :: int
  completedRegions :: "32 word"
  failedRegions :: "32 word"




text \<open>\<^verbatim>\<open>SetRegionsPerTask\<close> panics below 1: \<open>None\<close>.\<close>

definition SetRegionsPerTask :: "Runner \<Rightarrow> int \<Rightarrow> Runner option" where
  "SetRegionsPerTask s n = (if n < 1 then None else Some (s\<lparr>regionsPerTask := n\<rparr>))"

text \<open>
  A worker. The channel and the wait group it shares with the runner are part of
  the schedule below. Beside the fields of the Go struct (prefixed with \<open>w_\<close>, the
  runner has fields of the same names) the record keeps what the worker did: the
  calls of the handler it made, with their results, and whether it called
  \<^verbatim>\<open>cancel\<close>. The two counters that the workers add to are summed up by the runner
  from the calls made.
\<close>

record rangeTaskWorker =
  w_name :: string
  w_identifier :: string
  w_store :: storage
  w_handler :: TaskHandler
  w_err :: "error option"
  calls :: "(KeyRange \<times> TaskStat \<times> error option) list"
  cancelCalled :: bool


text \<open>
  What the Go scheduler and the caller of \<^verbatim>\<open>RunOnRange\<close> decide, made explicit. For
  the \<open>i\<close>-th task that the runner is about to send (counting from 0):
  \<^item> \<open>sends i\<close>: of the two cases of the runner's \<^verbatim>\<open>select\<close> the send is taken;
    otherwise \<^verbatim>\<open>ctx.Done()\<close> is, and the runner leaves the loop;
  \<^item> \<open>receiver i\<close>: the index of the worker that receives the task;
  \<^item> \<open>seen i\<close>: the context as that worker sees it in its \<^verbatim>\<open>select\<close> when it has
    taken the task (done if the caller or a worker cancelled it before);
  \<^item> \<open>during i\<close>: the context as the handler sees it while it works on the task.
  Every run of the Go program follows one schedule; a statement proved for every
  schedule holds for every run. The handler is a function of the context it sees
  and of the range.
\<close>

record schedule =
  sends :: "nat \<Rightarrow> bool"
  receiver :: "nat \<Rightarrow> nat"
  seen :: "nat \<Rightarrow> Context"
  during :: "nat \<Rightarrow> Context"

text \<open>
  \<^verbatim>\<open>rangeTaskWorker.run\<close> on the tasks the worker receives, each with its number,
  until the channel is closed and empty.
\<close>

fun run :: "schedule \<Rightarrow> rangeTaskWorker \<Rightarrow> (nat \<times> KeyRange) list \<Rightarrow> rangeTaskWorker" where
  "run env w [] = w"
| "run env w ((i, r) # rest) =
     (case seen env i of
        Some ctxErr \<Rightarrow> w\<lparr>w_err := Some ctxErr\<rparr>
      | None \<Rightarrow>
          (let (stat, err) = w_handler w (during env i) r;
               w = w\<lparr>calls := calls w @ [(r, stat, err)]\<rparr>
           in if err \<noteq> None then w\<lparr>w_err := err, cancelCalled := True\<rparr>
              else run env w rest))"





fun first_err :: "rangeTaskWorker list \<Rightarrow> error option" where
  "first_err [] = None"
| "first_err (w # ws) = (case w_err w of Some e \<Rightarrow> Some (WithStack e) | None \<Rightarrow> first_err ws)"







subsection \<open>A concrete runner\<close>














section \<open>Properties of the node arena\<close>

subsection \<open>Reading and writing the arena\<close>

lemma GetData_regions: "regions a = regions b \<Longrightarrow> GetData a x = GetData b x"
  by (cases x) auto

lemma GetData_store:
  "GetData (put_region a addr r) x = (if x = addr \<and> GetData a addr \<noteq> None then Some r else GetData a x)"
  by (cases addr; cases x) (auto simp: nth_list_update)

lemma length_regions_store: "length (regions (put_region a addr r)) = length (regions a)"
  by (cases addr) auto

lemma free_lists_store:
  "freeNode4_list (put_region a addr r) = freeNode4_list a"
  "freeNode16_list (put_region a addr r) = freeNode16_list a"
  "freeNode48_list (put_region a addr r) = freeNode48_list a"
  by (cases addr; simp)+

lemma node_region_keep:
  assumes "node_region a m x" and "GetData a addr = Some (Raw bs)" and "length bs = n"
    and "regions b = regions a"
  shows "node_region (put_region b addr (Raw (replicate n 0))) m x"
  using assms by (auto simp: GetData_store GetData_regions[of b a] split: option.splits region.splits)

lemma node_region_grow:
  assumes "node_region a m x"
  shows "node_region (put_region (a\<lparr>regions := regions a @ [r]\<rparr>) (Addr (length (regions a))) r) m x"
  using assms by (cases x) (auto simp: nth_append split: if_splits option.splits region.splits)

subsection \<open>The two branches of each allocation function\<close>

lemma allocNode4_reuse:
  assumes ok: "free_lists_ok sz f" and ne: "freeNode4_list (nodeAllocator f) \<noteq> []"
  shows "\<exists>f'. allocNode4 sz f = Some (last (freeNode4_list (nodeAllocator f)), f')
      \<and> reused_node (node4size sz) (nodeAllocator f) (freeNode4_list (nodeAllocator f))
           (nodeAllocator f') (freeNode4_list (nodeAllocator f')) (last (freeNode4_list (nodeAllocator f)))
      \<and> freeNode16_list (nodeAllocator f') = freeNode16_list (nodeAllocator f)
      \<and> freeNode48_list (nodeAllocator f') = freeNode48_list (nodeAllocator f)
      \<and> free_lists_ok sz f'"
proof -
  let ?na = "nodeAllocator f"
  let ?a = "last (freeNode4_list ?na)"
  let ?na1 = "?na\<lparr>freeNode4_list := butlast (freeNode4_list ?na)\<rparr>"
  let ?f' = "f\<lparr>nodeAllocator := put_region ?na1 ?a (Raw (replicate (node4size sz) 0))\<rparr>"
  from ok ne have "node_region ?na (node4size sz) ?a"
    by (simp add: free_lists_ok_def list_all_iff)
  then obtain bs where bs: "GetData ?na ?a = Some (Raw bs)" "length bs = node4size sz"
    by (auto split: option.splits region.splits)
  from ok have pos: "0 < node4size sz" by (simp add: free_lists_ok_def)
  have g1: "GetData ?na1 ?a = Some (Raw bs)"
    using bs(1) GetData_regions[of ?na1 ?na] by simp
  have nb: "bs \<noteq> []" using bs(2) pos by auto
  have run: "allocNode4 sz f = Some (?a, ?f')"
    using ne g1 bs(2) nb by (simp add: allocNode4_def Let_def)
  have keep: "node_region (nodeAllocator ?f') m x" if "node_region ?na m x" for m x
    using node_region_keep[OF that bs(1) bs(2), of ?na1] by simp
  have ok': "free_lists_ok sz ?f'"
    using ok keep by (auto simp: free_lists_ok_def list_all_iff free_lists_store dest: in_set_butlastD)
  have z: "zero_node (nodeAllocator ?f') (node4size sz) ?a"
    using g1 by (simp add: zero_node_def GetData_store)
  have o: "others_kept ?na (nodeAllocator ?f') ?a"
    using GetData_regions[of ?na1 ?na] by (simp add: others_kept_def GetData_store del: GetData.simps)
  show ?thesis
    using run z o ok' by (simp add: reused_node_def free_lists_store length_regions_store)
qed

lemma allocNode4_fresh:
  assumes ok: "free_lists_ok sz f" and e: "freeNode4_list (nodeAllocator f) = []"
  shows "\<exists>f'. allocNode4 sz f = Some (Addr (length (regions (nodeAllocator f))), f')
      \<and> fresh_node (node4size sz) (nodeAllocator f) (nodeAllocator f') (Addr (length (regions (nodeAllocator f))))
      \<and> freeNode4_list (nodeAllocator f') = []
      \<and> freeNode16_list (nodeAllocator f') = freeNode16_list (nodeAllocator f)
      \<and> freeNode48_list (nodeAllocator f') = freeNode48_list (nodeAllocator f)
      \<and> free_lists_ok sz f'"
proof -
  let ?na = "nodeAllocator f"
  let ?a = "Addr (length (regions ?na))"
  let ?z = "Raw (replicate (node4size sz) 0)"
  let ?na1 = "?na\<lparr>regions := regions ?na @ [?z]\<rparr>"
  let ?f' = "f\<lparr>nodeAllocator := put_region ?na1 ?a ?z\<rparr>"
  from ok have pos: "0 < node4size sz" by (simp add: free_lists_ok_def)
  have run: "allocNode4 sz f = Some (?a, ?f')"
    using e pos by (simp add: allocNode4_def Let_def Alloc_def)
  have keep: "node_region (nodeAllocator ?f') m x" if "node_region ?na m x" for m x
    using node_region_grow[OF that, of ?z] by simp
  have ok': "free_lists_ok sz ?f'"
    using ok keep by (auto simp: free_lists_ok_def list_all_iff)
  show ?thesis
    using run ok' e by (simp add: fresh_node_def zero_node_def others_kept_def nth_append)
qed

lemma freeNode4_then_alloc:
  assumes ok: "free_lists_ok sz f" and a: "node_region (nodeAllocator f) (node4size sz) addr"
  shows "free_lists_ok sz (freeNode4 f addr) \<and>
         (\<exists>f'. allocNode4 sz (freeNode4 f addr) = Some (addr, f') \<and>
               freeNode4_list (nodeAllocator f') = freeNode4_list (nodeAllocator f) \<and>
               zero_node (nodeAllocator f') (node4size sz) addr)"
proof -
  have ok1: "free_lists_ok sz (freeNode4 f addr)"
    using ok a by (simp add: free_lists_ok_def freeNode4_def list_all_iff
        GetData_regions[of "nodeAllocator f\<lparr>freeNode4_list := freeNode4_list (nodeAllocator f) @ [addr]\<rparr>" "nodeAllocator f"])
  have ne: "freeNode4_list (nodeAllocator (freeNode4 f addr)) \<noteq> []"
    by (simp add: freeNode4_def)
  from allocNode4_reuse[OF ok1 ne] show ?thesis
    using ok1 by (auto simp: reused_node_def freeNode4_def)
qed

lemma allocNode16_reuse:
  assumes ok: "free_lists_ok sz f" and ne: "freeNode16_list (nodeAllocator f) \<noteq> []"
  shows "\<exists>f'. allocNode16 sz f = Some (last (freeNode16_list (nodeAllocator f)), f')
      \<and> reused_node (node16size sz) (nodeAllocator f) (freeNode16_list (nodeAllocator f))
           (nodeAllocator f') (freeNode16_list (nodeAllocator f')) (last (freeNode16_list (nodeAllocator f)))
      \<and> freeNode4_list (nodeAllocator f') = freeNode4_list (nodeAllocator f)
      \<and> freeNode48_list (nodeAllocator f') = freeNode48_list (nodeAllocator f)
      \<and> free_lists_ok sz f'"
proof -
  let ?na = "nodeAllocator f"
  let ?a = "last (freeNode16_list ?na)"
  let ?na1 = "?na\<lparr>freeNode16_list := butlast (freeNode16_list ?na)\<rparr>"
  let ?f' = "f\<lparr>nodeAllocator := put_region ?na1 ?a (Raw (replicate (node16size sz) 0))\<rparr>"
  from ok ne have "node_region ?na (node16size sz) ?a"
    by (simp add: free_lists_ok_def list_all_iff)
  then obtain bs where bs: "GetData ?na ?a = Some (Raw bs)" "length bs = node16size sz"
    by (auto split: option.splits region.splits)
  from ok have pos: "0 < node16size sz" by (simp add: free_lists_ok_def)
  have g1: "GetData ?na1 ?a = Some (Raw bs)"
    using bs(1) GetData_regions[of ?na1 ?na] by simp
  have nb: "bs \<noteq> []" using bs(2) pos by auto
  have run: "allocNode16 sz f = Some (?a, ?f')"
    using ne g1 bs(2) nb by (simp add: allocNode16_def Let_def)
  have keep: "node_region (nodeAllocator ?f') m x" if "node_region ?na m x" for m x
    using node_region_keep[OF that bs(1) bs(2), of ?na1] by simp
  have ok': "free_lists_ok sz ?f'"
    using ok keep by (auto simp: free_lists_ok_def list_all_iff free_lists_store dest: in_set_butlastD)
  have z: "zero_node (nodeAllocator ?f') (node16size sz) ?a"
    using g1 by (simp add: zero_node_def GetData_store)
  have o: "others_kept ?na (nodeAllocator ?f') ?a"
    using GetData_regions[of ?na1 ?na] by (simp add: others_kept_def GetData_store del: GetData.simps)
  show ?thesis
    using run z o ok' by (simp add: reused_node_def free_lists_store length_regions_store)
qed

lemma allocNode16_fresh:
  assumes ok: "free_lists_ok sz f" and e: "freeNode16_list (nodeAllocator f) = []"
  shows "\<exists>f'. allocNode16 sz f = Some (Addr (length (regions (nodeAllocator f))), f')
      \<and> fresh_node (node16size sz) (nodeAllocator f) (nodeAllocator f') (Addr (length (regions (nodeAllocator f))))
      \<and> freeNode16_list (nodeAllocator f') = []
      \<and> freeNode4_list (nodeAllocator f') = freeNode4_list (nodeAllocator f)
      \<and> freeNode48_list (nodeAllocator f') = freeNode48_list (nodeAllocator f)
      \<and> free_lists_ok sz f'"
proof -
  let ?na = "nodeAllocator f"
  let ?a = "Addr (length (regions ?na))"
  let ?z = "Raw (replicate (node16size sz) 0)"
  let ?na1 = "?na\<lparr>regions := regions ?na @ [?z]\<rparr>"
  let ?f' = "f\<lparr>nodeAllocator := put_region ?na1 ?a ?z\<rparr>"
  from ok have pos: "0 < node16size sz" by (simp add: free_lists_ok_def)
  have run: "allocNode16 sz f = Some (?a, ?f')"
    using e pos by (simp add: allocNode16_def Let_def Alloc_def)
  have keep: "node_region (nodeAllocator ?f') m x" if "node_region ?na m x" for m x
    using node_region_grow[OF that, of ?z] by simp
  have ok': "free_lists_ok sz ?f'"
    using ok keep by (auto simp: free_lists_ok_def list_all_iff)
  show ?thesis
    using run ok' e by (simp add: fresh_node_def zero_node_def others_kept_def nth_append)
qed

lemma freeNode16_then_alloc:
  assumes ok: "free_lists_ok sz f" and a: "node_region (nodeAllocator f) (node16size sz) addr"
  shows "free_lists_ok sz (freeNode16 f addr) \<and>
         (\<exists>f'. allocNode16 sz (freeNode16 f addr) = Some (addr, f') \<and>
               freeNode16_list (nodeAllocator f') = freeNode16_list (nodeAllocator f) \<and>
               zero_node (nodeAllocator f') (node16size sz) addr)"
proof -
  have ok1: "free_lists_ok sz (freeNode16 f addr)"
    using ok a by (simp add: free_lists_ok_def freeNode16_def list_all_iff
        GetData_regions[of "nodeAllocator f\<lparr>freeNode16_list := freeNode16_list (nodeAllocator f) @ [addr]\<rparr>" "nodeAllocator f"])
  have ne: "freeNode16_list (nodeAllocator (freeNode16 f addr)) \<noteq> []"
    by (simp add: freeNode16_def)
  from allocNode16_reuse[OF ok1 ne] show ?thesis
    using ok1 by (auto simp: reused_node_def freeNode16_def)
qed

lemma allocNode48_reuse:
  assumes ok: "free_lists_ok sz f" and ne: "freeNode48_list (nodeAllocator f) \<noteq> []"
  shows "\<exists>f'. allocNode48 sz f = Some (last (freeNode48_list (nodeAllocator f)), f')
      \<and> reused_node (node48size sz) (nodeAllocator f) (freeNode48_list (nodeAllocator f))
           (nodeAllocator f') (freeNode48_list (nodeAllocator f')) (last (freeNode48_list (nodeAllocator f)))
      \<and> freeNode4_list (nodeAllocator f') = freeNode4_list (nodeAllocator f)
      \<and> freeNode16_list (nodeAllocator f') = freeNode16_list (nodeAllocator f)
      \<and> free_lists_ok sz f'"
proof -
  let ?na = "nodeAllocator f"
  let ?a = "last (freeNode48_list ?na)"
  let ?na1 = "?na\<lparr>freeNode48_list := butlast (freeNode48_list ?na)\<rparr>"
  let ?f' = "f\<lparr>nodeAllocator := put_region ?na1 ?a (Raw (replicate (node48size sz) 0))\<rparr>"
  from ok ne have "node_region ?na (node48size sz) ?a"
    by (simp add: free_lists_ok_def list_all_iff)
  then obtain bs where bs: "GetData ?na ?a = Some (Raw bs)" "length bs = node48size sz"
    by (auto split: option.splits region.splits)
  from ok have pos: "0 < node48size sz" by (simp add: free_lists_ok_def)
  have g1: "GetData ?na1 ?a = Some (Raw bs)"
    using bs(1) GetData_regions[of ?na1 ?na] by simp
  have nb: "bs \<noteq> []" using bs(2) pos by auto
  have run: "allocNode48 sz f = Some (?a, ?f')"
    using ne g1 bs(2) nb by (simp add: allocNode48_def Let_def)
  have keep: "node_region (nodeAllocator ?f') m x" if "node_region ?na m x" for m x
    using node_region_keep[OF that bs(1) bs(2), of ?na1] by simp
  have ok': "free_lists_ok sz ?f'"
    using ok keep by (auto simp: free_lists_ok_def list_all_iff free_lists_store dest: in_set_butlastD)
  have z: "zero_node (nodeAllocator ?f') (node48size sz) ?a"
    using g1 by (simp add: zero_node_def GetData_store)
  have o: "others_kept ?na (nodeAllocator ?f') ?a"
    using GetData_regions[of ?na1 ?na] by (simp add: others_kept_def GetData_store del: GetData.simps)
  show ?thesis
    using run z o ok' by (simp add: reused_node_def free_lists_store length_regions_store)
qed

lemma allocNode48_fresh:
  assumes ok: "free_lists_ok sz f" and e: "freeNode48_list (nodeAllocator f) = []"
  shows "\<exists>f'. allocNode48 sz f = Some (Addr (length (regions (nodeAllocator f))), f')
      \<and> fresh_node (node48size sz) (nodeAllocator f) (nodeAllocator f') (Addr (length (regions (nodeAllocator f))))
      \<and> freeNode48_list (nodeAllocator f') = []
      \<and> freeNode4_list (nodeAllocator f') = freeNode4_list (nodeAllocator f)
      \<and> freeNode16_list (nodeAllocator f') = freeNode16_list (nodeAllocator f)
      \<and> free_lists_ok sz f'"
proof -
  let ?na = "nodeAllocator f"
  let ?a = "Addr (length (regions ?na))"
  let ?z = "Raw (replicate (node48size sz) 0)"
  let ?na1 = "?na\<lparr>regions := regions ?na @ [?z]\<rparr>"
  let ?f' = "f\<lparr>nodeAllocator := put_region ?na1 ?a ?z\<rparr>"
  from ok have pos: "0 < node48size sz" by (simp add: free_lists_ok_def)
  have run: "allocNode48 sz f = Some (?a, ?f')"
    using e pos by (simp add: allocNode48_def Let_def Alloc_def)
  have keep: "node_region (nodeAllocator ?f') m x" if "node_region ?na m x" for m x
    using node_region_grow[OF that, of ?z] by simp
  have ok': "free_lists_ok sz ?f'"
    using ok keep by (auto simp: free_lists_ok_def list_all_iff)
  show ?thesis
    using run ok' e by (simp add: fresh_node_def zero_node_def others_kept_def nth_append)
qed

lemma freeNode48_then_alloc:
  assumes ok: "free_lists_ok sz f" and a: "node_region (nodeAllocator f) (node48size sz) addr"
  shows "free_lists_ok sz (freeNode48 f addr) \<and>
         (\<exists>f'. allocNode48 sz (freeNode48 f addr) = Some (addr, f') \<and>
               freeNode48_list (nodeAllocator f') = freeNode48_list (nodeAllocator f) \<and>
               zero_node (nodeAllocator f') (node48size sz) addr)"
proof -
  have ok1: "free_lists_ok sz (freeNode48 f addr)"
    using ok a by (simp add: free_lists_ok_def freeNode48_def list_all_iff
        GetData_regions[of "nodeAllocator f\<lparr>freeNode48_list := freeNode48_list (nodeAllocator f) @ [addr]\<rparr>" "nodeAllocator f"])
  have ne: "freeNode48_list (nodeAllocator (freeNode48 f addr)) \<noteq> []"
    by (simp add: freeNode48_def)
  from allocNode48_reuse[OF ok1 ne] show ?thesis
    using ok1 by (auto simp: reused_node_def freeNode48_def)
qed

lemma allocNode256_fresh:
  assumes ok: "free_lists_ok sz f"
  shows "\<exists>f'. allocNode256 sz f = Some (Addr (length (regions (nodeAllocator f))), f')
      \<and> fresh_node (node256size sz) (nodeAllocator f) (nodeAllocator f') (Addr (length (regions (nodeAllocator f))))
      \<and> freeNode4_list (nodeAllocator f') = freeNode4_list (nodeAllocator f)
      \<and> freeNode16_list (nodeAllocator f') = freeNode16_list (nodeAllocator f)
      \<and> freeNode48_list (nodeAllocator f') = freeNode48_list (nodeAllocator f)
      \<and> free_lists_ok sz f'"
proof -
  let ?na = "nodeAllocator f"
  let ?a = "Addr (length (regions ?na))"
  let ?z = "Raw (replicate (node256size sz) 0)"
  let ?na1 = "?na\<lparr>regions := regions ?na @ [?z]\<rparr>"
  let ?f' = "f\<lparr>nodeAllocator := put_region ?na1 ?a ?z\<rparr>"
  from ok have pos: "0 < node256size sz" by (simp add: free_lists_ok_def)
  have run: "allocNode256 sz f = Some (?a, ?f')"
    using pos by (simp add: allocNode256_def Let_def Alloc_def)
  have keep: "node_region (nodeAllocator ?f') m x" if "node_region ?na m x" for m x
    using node_region_grow[OF that, of ?z] by simp
  have ok': "free_lists_ok sz ?f'"
    using ok keep by (auto simp: free_lists_ok_def list_all_iff)
  show ?thesis
    using run ok' by (simp add: fresh_node_def zero_node_def others_kept_def nth_append)
qed

subsection \<open>Allocation of inner nodes\<close>

text \<open>After \<^verbatim>\<open>init\<close> the free lists are empty, so they hold nothing wrong.\<close>

lemma init_free_lists_ok:
  assumes "0 < node4size sz" "0 < node16size sz" "0 < node48size sz" "0 < node256size sz"
  shows "free_lists_ok sz (init f)"
  using assms by (simp add: free_lists_ok_def init_def)

text \<open>
  C4. Whatever calls of \<^verbatim>\<open>allocNodeK\<close> and \<^verbatim>\<open>freeNodeK\<close> came before (they keep
  \<open>free_lists_ok\<close>: the free lists hold addresses of nodes of their size),
  \<^verbatim>\<open>allocNode4\<close>, \<^verbatim>\<open>allocNode16\<close> and \<^verbatim>\<open>allocNode48\<close> return the address freed last
  when their free list is not empty, and otherwise the address of a fresh region of
  the node's size; in both cases the node at the returned address is zero.
  \<^verbatim>\<open>allocNode256\<close> always takes a fresh zeroed region and leaves the three free lists
  alone. An address given to \<^verbatim>\<open>freeNodeK\<close> is what the next \<^verbatim>\<open>allocNodeK\<close> returns.
\<close>

theorem allocNode_reuses_or_allocates:
  assumes ok: "free_lists_ok sz f"
  shows
   "(\<exists>addr f'. allocNode4 sz f = Some (addr, f') \<and> free_lists_ok sz f' \<and>
        (if freeNode4_list (nodeAllocator f) \<noteq> []
         then reused_node (node4size sz) (nodeAllocator f) (freeNode4_list (nodeAllocator f))
                (nodeAllocator f') (freeNode4_list (nodeAllocator f')) addr
         else fresh_node (node4size sz) (nodeAllocator f) (nodeAllocator f') addr \<and>
              freeNode4_list (nodeAllocator f') = []))
  \<and> (\<exists>addr f'. allocNode16 sz f = Some (addr, f') \<and> free_lists_ok sz f' \<and>
        (if freeNode16_list (nodeAllocator f) \<noteq> []
         then reused_node (node16size sz) (nodeAllocator f) (freeNode16_list (nodeAllocator f))
                (nodeAllocator f') (freeNode16_list (nodeAllocator f')) addr
         else fresh_node (node16size sz) (nodeAllocator f) (nodeAllocator f') addr \<and>
              freeNode16_list (nodeAllocator f') = []))
  \<and> (\<exists>addr f'. allocNode48 sz f = Some (addr, f') \<and> free_lists_ok sz f' \<and>
        (if freeNode48_list (nodeAllocator f) \<noteq> []
         then reused_node (node48size sz) (nodeAllocator f) (freeNode48_list (nodeAllocator f))
                (nodeAllocator f') (freeNode48_list (nodeAllocator f')) addr
         else fresh_node (node48size sz) (nodeAllocator f) (nodeAllocator f') addr \<and>
              freeNode48_list (nodeAllocator f') = []))
  \<and> (\<exists>addr f'. allocNode256 sz f = Some (addr, f') \<and> free_lists_ok sz f' \<and>
        fresh_node (node256size sz) (nodeAllocator f) (nodeAllocator f') addr \<and>
        freeNode4_list (nodeAllocator f') = freeNode4_list (nodeAllocator f) \<and>
        freeNode16_list (nodeAllocator f') = freeNode16_list (nodeAllocator f) \<and>
        freeNode48_list (nodeAllocator f') = freeNode48_list (nodeAllocator f))
  \<and> (\<forall>addr. node_region (nodeAllocator f) (node4size sz) addr \<longrightarrow>
        free_lists_ok sz (freeNode4 f addr) \<and>
        (\<exists>f'. allocNode4 sz (freeNode4 f addr) = Some (addr, f') \<and>
              freeNode4_list (nodeAllocator f') = freeNode4_list (nodeAllocator f) \<and>
              zero_node (nodeAllocator f') (node4size sz) addr))
  \<and> (\<forall>addr. node_region (nodeAllocator f) (node16size sz) addr \<longrightarrow>
        free_lists_ok sz (freeNode16 f addr) \<and>
        (\<exists>f'. allocNode16 sz (freeNode16 f addr) = Some (addr, f') \<and>
              freeNode16_list (nodeAllocator f') = freeNode16_list (nodeAllocator f) \<and>
              zero_node (nodeAllocator f') (node16size sz) addr))
  \<and> (\<forall>addr. node_region (nodeAllocator f) (node48size sz) addr \<longrightarrow>
        free_lists_ok sz (freeNode48 f addr) \<and>
        (\<exists>f'. allocNode48 sz (freeNode48 f addr) = Some (addr, f') \<and>
              freeNode48_list (nodeAllocator f') = freeNode48_list (nodeAllocator f) \<and>
              zero_node (nodeAllocator f') (node48size sz) addr))"
proof -
  have n4: "\<exists>addr f'. allocNode4 sz f = Some (addr, f') \<and> free_lists_ok sz f' \<and>
        (if freeNode4_list (nodeAllocator f) \<noteq> []
         then reused_node (node4size sz) (nodeAllocator f) (freeNode4_list (nodeAllocator f))
                (nodeAllocator f') (freeNode4_list (nodeAllocator f')) addr
         else fresh_node (node4size sz) (nodeAllocator f) (nodeAllocator f') addr \<and>
              freeNode4_list (nodeAllocator f') = [])"
  proof (cases "freeNode4_list (nodeAllocator f) = []")
    case True
    from allocNode4_fresh[OF ok True] show ?thesis using True by auto
  next
    case False
    from allocNode4_reuse[OF ok False] show ?thesis using False by auto
  qed
  have n16: "\<exists>addr f'. allocNode16 sz f = Some (addr, f') \<and> free_lists_ok sz f' \<and>
        (if freeNode16_list (nodeAllocator f) \<noteq> []
         then reused_node (node16size sz) (nodeAllocator f) (freeNode16_list (nodeAllocator f))
                (nodeAllocator f') (freeNode16_list (nodeAllocator f')) addr
         else fresh_node (node16size sz) (nodeAllocator f) (nodeAllocator f') addr \<and>
              freeNode16_list (nodeAllocator f') = [])"
  proof (cases "freeNode16_list (nodeAllocator f) = []")
    case True
    from allocNode16_fresh[OF ok True] show ?thesis using True by auto
  next
    case False
    from allocNode16_reuse[OF ok False] show ?thesis using False by auto
  qed
  have n48: "\<exists>addr f'. allocNode48 sz f = Some (addr, f') \<and> free_lists_ok sz f' \<and>
        (if freeNode48_list (nodeAllocator f) \<noteq> []
         then reused_node (node48size sz) (nodeAllocator f) (freeNode48_list (nodeAllocator f))
                (nodeAllocator f') (freeNode48_list (nodeAllocator f')) addr
         else fresh_node (node48size sz) (nodeAllocator f) (nodeAllocator f') addr \<and>
              freeNode48_list (nodeAllocator f') = [])"
  proof (cases "freeNode48_list (nodeAllocator f) = []")
    case True
    from allocNode48_fresh[OF ok True] show ?thesis using True by auto
  next
    case False
    from allocNode48_reuse[OF ok False] show ?thesis using False by auto
  qed
  have n256: "\<exists>addr f'. allocNode256 sz f = Some (addr, f') \<and> free_lists_ok sz f' \<and>
        fresh_node (node256size sz) (nodeAllocator f) (nodeAllocator f') addr \<and>
        freeNode4_list (nodeAllocator f') = freeNode4_list (nodeAllocator f) \<and>
        freeNode16_list (nodeAllocator f') = freeNode16_list (nodeAllocator f) \<and>
        freeNode48_list (nodeAllocator f') = freeNode48_list (nodeAllocator f)"
    using allocNode256_fresh[OF ok] by auto
  show ?thesis
    using n4 n16 n48 n256 freeNode4_then_alloc[OF ok] freeNode16_then_alloc[OF ok]
      freeNode48_then_alloc[OF ok]
    by blast
qed

theorem allocNode_reuses_or_allocates_witness:
  "free_lists_ok tiny_sizes used_alloc
   \<and> (\<exists>f'. allocNode4 tiny_sizes used_alloc = Some (Addr 0, f') \<and>
           zero_node (nodeAllocator f') 4 (Addr 0) \<and>
           freeNode4_list (nodeAllocator f') = [])
   \<and> (\<exists>f'. allocNode256 tiny_sizes used_alloc = Some (Addr 1, f') \<and>
           zero_node (nodeAllocator f') 256 (Addr 1) \<and>
           freeNode4_list (nodeAllocator f') = [Addr 0])"
proof -
  have ok: "free_lists_ok tiny_sizes used_alloc"
    by (simp add: free_lists_ok_def tiny_sizes_def used_alloc_def)
  note all = allocNode_reuses_or_allocates[OF ok]
  from all obtain a4 f4 where n4: "allocNode4 tiny_sizes used_alloc = Some (a4, f4)"
    "if freeNode4_list (nodeAllocator used_alloc) \<noteq> []
     then reused_node (node4size tiny_sizes) (nodeAllocator used_alloc)
            (freeNode4_list (nodeAllocator used_alloc)) (nodeAllocator f4)
            (freeNode4_list (nodeAllocator f4)) a4
     else fresh_node (node4size tiny_sizes) (nodeAllocator used_alloc) (nodeAllocator f4) a4 \<and>
          freeNode4_list (nodeAllocator f4) = []"
    by blast
  from n4(2) have r4: "a4 = Addr 0 \<and> zero_node (nodeAllocator f4) 4 (Addr 0) \<and>
      freeNode4_list (nodeAllocator f4) = []"
    by (auto simp: used_alloc_def tiny_sizes_def reused_node_def)
  from all obtain a256 f256 where n256: "allocNode256 tiny_sizes used_alloc = Some (a256, f256)"
    "fresh_node (node256size tiny_sizes) (nodeAllocator used_alloc) (nodeAllocator f256) a256"
    "freeNode4_list (nodeAllocator f256) = freeNode4_list (nodeAllocator used_alloc)"
    by blast
  from n256(2,3) have r256: "a256 = Addr 1 \<and> zero_node (nodeAllocator f256) 256 (Addr 1) \<and>
      freeNode4_list (nodeAllocator f256) = [Addr 0]"
    by (auto simp: used_alloc_def tiny_sizes_def fresh_node_def)
  show ?thesis
    using ok n4(1) r4 n256(1) r256 by simp
qed

subsection \<open>Allocation of leaves\<close>

lemma allocLeaf_result:
  assumes "0 < leafSize sz"
  shows "allocLeaf sz f key =
     Some (Addr (length (regions (nodeAllocator f))),
           f\<lparr>nodeAllocator := put_region ((nodeAllocator f)\<lparr>regions := regions (nodeAllocator f) @
                 [Raw (replicate (leafSize sz + length key) 0)]\<rparr>)
               (Addr (length (regions (nodeAllocator f))))
               (Leaf \<lparr>vAddr = NullAddr, klen = word_of_nat (length key), flags = 0\<rparr> key)\<rparr>)"
  using assms by (simp add: allocLeaf_def Alloc_def go_copy_def Let_def)

text \<open>
  C5, as the code has it. Every leaf returned by \<^verbatim>\<open>allocLeaf(key)\<close> is a flags-only
  leaf in a fresh region: its \<^verbatim>\<open>vAddr\<close> is the \<open>NULL\<close> address, its flags are 0 and the
  key bytes stand verbatim behind the header. The stored key length is
  \<^verbatim>\<open>uint16(len(key))\<close>, that is \<open>len(key)\<close> modulo \<open>2^16\<close>: it equals \<open>len(key)\<close> for
  every key shorter than 65536 bytes.
\<close>

theorem allocLeaf_flags_only:
  assumes "0 < leafSize sz"
  shows "\<exists>addr f' lf.
     allocLeaf sz f key = Some (addr, f') \<and>
     GetData (nodeAllocator f) addr = None \<and>
     GetData (nodeAllocator f') addr = Some (Leaf lf key) \<and>
     vAddr lf = NullAddr \<and> IsNull (vAddr lf) \<and> flags lf = 0 \<and>
     unat (klen lf) = length key mod 65536 \<and>
     (length key < 65536 \<longrightarrow> unat (klen lf) = length key)"
  using assms
  by (simp add: allocLeaf_result IsNull_def unat_of_nat)

theorem allocLeaf_flags_only_witness:
  "0 < leafSize ex_sizes \<and>
   (\<exists>f'. allocLeaf ex_sizes ex_alloc [107, 101, 121] = Some (Addr 0, f') \<and>
      GetData (nodeAllocator f') (Addr 0) =
        Some (Leaf \<lparr>vAddr = NullAddr, klen = 3, flags = 0\<rparr> [107, 101, 121]))"
proof -
  have h: "0 < leafSize ex_sizes" by (simp add: ex_sizes_def)
  show ?thesis
    using h allocLeaf_flags_only[OF h, of ex_alloc "[107, 101, 121]"]
    by (simp add: allocLeaf_result ex_alloc_def)
qed

text \<open>
  The claim as stated (the stored key length equals \<open>len(key)\<close> for every key) fails
  for a key of 65536 bytes: the stored length is 0.
\<close>

theorem allocLeaf_klen_counterexample:
  "(case allocLeaf ex_sizes ex_alloc (replicate 65536 0) of
      None \<Rightarrow> False
    | Some (addr, f') \<Rightarrow>
        (case GetData (nodeAllocator f') addr of
           Some (Leaf lf behind) \<Rightarrow>
             behind = replicate 65536 0 \<and> klen lf = 0 \<and> unat (klen lf) \<noteq> length behind
         | _ \<Rightarrow> False))"
  by (simp add: allocLeaf_def Alloc_def go_copy_def Let_def ex_sizes_def ex_alloc_def)

subsection \<open>Looking up a leaf\<close>

text \<open>
  C10. For the \<open>NULL\<close> address \<^verbatim>\<open>getLeaf\<close> returns \<^verbatim>\<open>nil\<close> whatever the arena holds,
  where reading the arena at that address would fail; and when it returns a leaf
  pointer, the address is not \<open>NULL\<close> and the pointer is to the arena's region at
  that address.
\<close>

theorem getLeaf_null:
  "(IsNull addr \<longrightarrow> getLeaf f addr = Some NilLeaf \<and> GetData (nodeAllocator f) addr = None)
   \<and> (\<forall>p. getLeaf f addr = Some (LeafAt p) \<longrightarrow>
          \<not> IsNull addr \<and> p = addr \<and> GetData (nodeAllocator f) addr \<noteq> None)"
  by (auto simp: getLeaf_def IsNull_def split: option.splits if_splits)

theorem getLeaf_null_witness:
  "IsNull NullAddr \<and> getLeaf used_alloc NullAddr = Some NilLeaf \<and>
   getLeaf used_alloc (Addr 0) = Some (LeafAt (Addr 0)) \<and> \<not> IsNull (Addr 0)"
  using getLeaf_null[of NullAddr used_alloc] getLeaf_null[of "Addr 0" used_alloc]
  by (simp add: getLeaf_def IsNull_def used_alloc_def)

section \<open>Properties of the union store\<close>

subsection \<open>The union iterator\<close>

lemma cmp_dir_lt: "cmp_dir r a b < 0 \<longleftrightarrow> (if r then b < a else a < b)"
  by (auto simp: cmp_dir_def Compare_def)

lemma cmp_dir_gt: "cmp_dir r a b > 0 \<longleftrightarrow> (if r then a < b else b < a)"
  by (auto simp: cmp_dir_def Compare_def)

lemma cmp_dir_flip: "cmp_dir r a b > 0 \<longleftrightarrow> cmp_dir r b a < 0"
  by (auto simp: cmp_dir_def Compare_def)

lemma cmp_dir_eq: "\<not> cmp_dir r a b < 0 \<Longrightarrow> \<not> cmp_dir r a b > 0 \<Longrightarrow> a = b"
  by (auto simp: cmp_dir_def Compare_def split: if_splits)

lemma cmp_dir_irrefl: "\<not> cmp_dir r a a < 0"
  by (auto simp: cmp_dir_def Compare_def)

lemma cmp_dir_trans: "cmp_dir r a b < 0 \<Longrightarrow> cmp_dir r b c < 0 \<Longrightarrow> cmp_dir r a c < 0"
  by (auto simp: cmp_dir_lt split: if_splits)

lemma set_emit_dirty: "set (emit_dirty d rest) = (if snd d = [] then {} else {d}) \<union> set rest"
  by (cases d) auto

lemma ordered_Cons: "ordered r (x # xs) \<longleftrightarrow> (\<forall>y \<in> set xs. cmp_dir r (fst x) (fst y) < 0) \<and> ordered r xs"
  by (auto simp: ordered_def)

lemma ordered_Nil: "ordered r []" by (simp add: ordered_def)

lemma in_keys: "(k, v) \<in> set xs \<Longrightarrow> k \<in> fst ` set xs"
  by force

lemma keys_union_entries:
  "(k, v) \<in> set (union_entries r B S) \<Longrightarrow> k \<in> fst ` set B \<union> fst ` set S"
proof (induction r B S rule: union_entries.induct)
  case (1 r S)
  then show ?case by (auto dest: in_keys)
next
  case (2 r d B)
  then show ?case by (cases d) (auto split: if_splits)
next
  case (3 r d B s S)
  then show ?case by (cases d; cases s) (auto split: if_splits)
qed

lemma set_union_entries:
  assumes "ordered r B" "ordered r S"
  shows "set (union_entries r B S) =
     {(k, v). (k, v) \<in> set B \<and> v \<noteq> []} \<union> {(k, v). (k, v) \<in> set S \<and> k \<notin> fst ` set B}"
  using assms
proof (induction r B S rule: union_entries.induct)
  case (1 r S)
  then show ?case by auto
next
  case (2 r d B)
  then show ?case by (cases d) (auto simp: ordered_Cons ordered_Nil)
next
  case (3 r d B s S)
  obtain dk dv where d: "d = (dk, dv)" by (cases d)
  obtain sk sv where s: "s = (sk, sv)" by (cases s)
  from 3 have oB: "ordered r B" and oS: "ordered r S"
    and dB: "\<forall>y \<in> set B. cmp_dir r dk (fst y) < 0"
    and sS: "\<forall>y \<in> set S. cmp_dir r sk (fst y) < 0"
    by (auto simp: ordered_Cons d s)
  consider (lt) "cmp_dir r dk sk < 0" | (gt) "\<not> cmp_dir r dk sk < 0" "cmp_dir r dk sk > 0"
    | (eq) "\<not> cmp_dir r dk sk < 0" "\<not> cmp_dir r dk sk > 0" by blast
  then show ?case
  proof cases
    case lt
    have notin: "\<forall>v. (dk, v) \<notin> set (s # S)"
      using lt sS cmp_dir_trans[OF lt] cmp_dir_irrefl[of r dk] by (fastforce simp: s)
    from 3(1) lt oB 3(5) have IH: "set (union_entries r B (s # S)) =
       {(k, v). (k, v) \<in> set B \<and> v \<noteq> []} \<union> {(k, v). (k, v) \<in> set (s # S) \<and> k \<notin> fst ` set B}"
      by (simp add: d s)
    show ?thesis using lt IH notin by (auto simp: d s set_emit_dirty image_iff)
  next
    case gt
    have lt': "cmp_dir r sk dk < 0" using gt(2) by (simp add: cmp_dir_flip)
    have notin: "\<forall>v. (sk, v) \<notin> set (d # B)"
      using lt' dB cmp_dir_trans[OF lt'] cmp_dir_irrefl[of r sk] by (fastforce simp: d)
    from 3(2) gt 3(4) oS have IH: "set (union_entries r (d # B) S) =
       {(k, v). (k, v) \<in> set (d # B) \<and> v \<noteq> []} \<union> {(k, v). (k, v) \<in> set S \<and> k \<notin> fst ` set (d # B)}"
      by (simp add: d s)
    show ?thesis using gt IH notin by (auto simp: d s image_iff)
  next
    case eq
    have e: "dk = sk" using cmp_dir_eq[OF eq] .
    have notin: "\<forall>v. (sk, v) \<notin> set S"
      using sS cmp_dir_irrefl[of r sk] by fastforce
    from 3(3) eq oB oS have IH: "set (union_entries r B S) =
       {(k, v). (k, v) \<in> set B \<and> v \<noteq> []} \<union> {(k, v). (k, v) \<in> set S \<and> k \<notin> fst ` set B}"
      by (simp add: d s)
    show ?thesis using eq IH notin e by (auto simp: d s set_emit_dirty image_iff)
  qed
qed

lemma ordered_emit_dirty:
  "ordered r rest \<Longrightarrow> \<forall>y \<in> set rest. cmp_dir r (fst d) (fst y) < 0 \<Longrightarrow> ordered r (emit_dirty d rest)"
  by (cases d) (auto simp: ordered_Cons)

lemma ordered_union_entries:
  assumes "ordered r B" "ordered r S"
  shows "ordered r (union_entries r B S)"
  using assms
proof (induction r B S rule: union_entries.induct)
  case (1 r S)
  then show ?case by simp
next
  case (2 r d B)
  then have o: "ordered r (union_entries r B [])" by (simp add: ordered_Cons)
  have "\<forall>y \<in> set (union_entries r B []). cmp_dir r (fst d) (fst y) < 0"
    using keys_union_entries[of _ _ r B "[]"] 2(2) by (fastforce simp: ordered_Cons)
  with o show ?case by (simp add: ordered_emit_dirty)
next
  case (3 r d B s S)
  from 3 have oB: "ordered r B" and oS: "ordered r S"
    and dB: "\<forall>y \<in> set B. cmp_dir r (fst d) (fst y) < 0"
    and sS: "\<forall>y \<in> set S. cmp_dir r (fst s) (fst y) < 0"
    by (auto simp: ordered_Cons)
  consider (lt) "cmp_dir r (fst d) (fst s) < 0"
    | (gt) "\<not> cmp_dir r (fst d) (fst s) < 0" "cmp_dir r (fst d) (fst s) > 0"
    | (eq) "\<not> cmp_dir r (fst d) (fst s) < 0" "\<not> cmp_dir r (fst d) (fst s) > 0" by blast
  then show ?case
  proof cases
    case lt
    have o: "ordered r (union_entries r B (s # S))" using 3(1) lt oB 3(5) by simp
    have "\<forall>y \<in> set (union_entries r B (s # S)). cmp_dir r (fst d) (fst y) < 0"
      using keys_union_entries[of _ _ r B "s # S"] dB sS lt cmp_dir_trans[OF lt] by fastforce
    with o lt show ?thesis by (simp add: ordered_emit_dirty)
  next
    case gt
    have lt': "cmp_dir r (fst s) (fst d) < 0" using gt(2) by (simp add: cmp_dir_flip)
    have o: "ordered r (union_entries r (d # B) S)" using 3(2) gt 3(4) oS by simp
    have "\<forall>y \<in> set (union_entries r (d # B) S). cmp_dir r (fst s) (fst y) < 0"
      using keys_union_entries[of _ _ r "d # B" S] dB sS lt' cmp_dir_trans[OF lt'] by fastforce
    with o gt show ?thesis by (simp add: ordered_Cons)
  next
    case eq
    have e: "fst d = fst s" using cmp_dir_eq[OF eq] .
    have o: "ordered r (union_entries r B S)" using 3(3) eq oB oS by simp
    have "\<forall>y \<in> set (union_entries r B S). cmp_dir r (fst d) (fst y) < 0"
      using keys_union_entries[of _ _ r B S] dB sS e by fastforce
    with o eq show ?thesis by (simp add: ordered_emit_dirty)
  qed
qed


text \<open>
  C2. When the buffer and the snapshot each return an iterator for the same bounds,
  ordered in the direction of the scan, \<^verbatim>\<open>Iter\<close> and \<^verbatim>\<open>IterReverse\<close> return the union
  iterator, which yields exactly the entries of the buffer whose value is not empty
  and the entries of the snapshot whose key the buffer does not hold, in key order
  (descending for the reverse scan). On a key that both sides hold the buffer's
  entry is the one emitted, unless it is a tombstone, and both sides advance.
\<close>

theorem union_iter_yields:
  "(mb_Iter (memBuffer us) (mb_state (memBuffer us)) k bound = Inr B \<and>
    snap_Iter (snapshot us) k bound = Inr S \<and> ordered False B \<and> ordered False S \<longrightarrow>
      Iter us k bound = Inr (union_entries False B S) \<and>
      yields_union False B S (union_entries False B S))
   \<and> (mb_IterReverse (memBuffer us) (mb_state (memBuffer us)) k bound = Inr B \<and>
    snap_IterReverse (snapshot us) k bound = Inr S \<and> ordered True B \<and> ordered True S \<longrightarrow>
      IterReverse us k bound = Inr (union_entries True B S) \<and>
      yields_union True B S (union_entries True B S))
   \<and> union_entries reverse ((key, bv) # B') ((key, sv) # S') =
       (if bv = [] then [] else [(key, bv)]) @ union_entries reverse B' S'"
proof -
  have y: "yields_union r B S (union_entries r B S)" if "ordered r B" "ordered r S" for r
    using that by (simp add: yields_union_def ordered_union_entries set_union_entries)
  have step: "union_entries reverse ((key, bv) # B') ((key, sv) # S') =
       (if bv = [] then [] else [(key, bv)]) @ union_entries reverse B' S'"
    by (simp add: cmp_dir_def Compare_def)
  show ?thesis
    using y step by (simp add: Iter_def IterReverse_def NewUnionIter_def)
qed

theorem union_iter_yields_witness:
  "mb_Iter (memBuffer ex_store) (mb_state (memBuffer ex_store)) [] [] = Inr [([97], [66]), ([98], [])]
   \<and> snap_Iter (snapshot ex_store) [] [] = Inr [([97], [83]), ([98], [83]), ([99], [83])]
   \<and> ordered False [([97], [66]), ([98], [])]
   \<and> ordered False [([97], [83]), ([98], [83]), ([99], [83])]
   \<and> Iter ex_store [] [] = Inr [([97], [66]), ([99], [83])]
   \<and> yields_union False [([97], [66]), ([98], [])] [([97], [83]), ([98], [83]), ([99], [83])]
        [([97], [66]), ([99], [83])]
   \<and> IterReverse ex_store [] [] = Inr [([99], [83]), ([97], [66])]"
proof -
  have v: "vlog ex_memdb = [([97], [66]), ([98], [])]"
    by (simp add: ex_memdb_def memdb_Delete_def memdb_Set_def empty_memdb_def bump_def materialize_def)
  have b: "mb_Iter (memBuffer ex_store) (mb_state (memBuffer ex_store)) [] [] = Inr [([97], [66]), ([98], [])]"
    by (simp add: ex_store_def NewUnionStore_def raw_buffer_def memdb_buffer_def memdb_Iter_def
        scan_def v in_bounds_def head_of_def)
  have s: "snap_Iter (snapshot ex_store) [] [] = Inr [([97], [83]), ([98], [83]), ([99], [83])]"
    by (simp add: ex_store_def NewUnionStore_def ex_snapshot_def snapshot_of_def in_bounds_def)
  have ob: "ordered False [([97], [66]), ([98], [])]"
    by (simp add: ordered_def cmp_dir_def Compare_def)
  have os: "ordered False [([97], [83]), ([98], [83]), ([99], [83])]"
    by (simp add: ordered_def cmp_dir_def Compare_def)
  have u: "union_entries False [([97], [66]), ([98], [])] [([97], [83]), ([98], [83]), ([99], [83])]
      = [([97], [66]), ([99], [83])]"
    by (simp add: cmp_dir_def Compare_def)
  have rb: "mb_IterReverse (memBuffer ex_store) (mb_state (memBuffer ex_store)) [] [] = Inr [([98], []), ([97], [66])]"
    by (simp add: ex_store_def NewUnionStore_def raw_buffer_def memdb_buffer_def memdb_IterReverse_def
        scan_def v in_bounds_def head_of_def)
  have rs: "snap_IterReverse (snapshot ex_store) [] [] = Inr [([99], [83]), ([98], [83]), ([97], [83])]"
    by (simp add: ex_store_def NewUnionStore_def ex_snapshot_def snapshot_of_def in_bounds_def)
  have orb: "ordered True [([98], []), ([97], [66])]"
    by (simp add: ordered_def cmp_dir_def Compare_def)
  have ors: "ordered True [([99], [83]), ([98], [83]), ([97], [83])]"
    by (simp add: ordered_def cmp_dir_def Compare_def)
  have ur: "union_entries True [([98], []), ([97], [66])] [([99], [83]), ([98], [83]), ([97], [83])]
      = [([99], [83]), ([97], [66])]"
    by (simp add: cmp_dir_def Compare_def)
  from union_iter_yields[of ex_store "[]" "[]" "[([97], [66]), ([98], [])]"
      "[([97], [83]), ([98], [83]), ([99], [83])]"] b s ob os
  have f: "Iter ex_store [] [] = Inr (union_entries False [([97], [66]), ([98], [])]
             [([97], [83]), ([98], [83]), ([99], [83])])"
    "yields_union False [([97], [66]), ([98], [])] [([97], [83]), ([98], [83]), ([99], [83])]
       (union_entries False [([97], [66]), ([98], [])] [([97], [83]), ([98], [83]), ([99], [83])])"
    by blast+
  from union_iter_yields[of ex_store "[]" "[]" "[([98], []), ([97], [66])]"
      "[([99], [83]), ([98], [83]), ([97], [83])]"] rb rs orb ors
  have r: "IterReverse ex_store [] [] = Inr (union_entries True [([98], []), ([97], [66])]
             [([99], [83]), ([98], [83]), ([97], [83])])"
    by blast
  show ?thesis
    using b s ob os f r unfolding u ur by simp
qed

subsection \<open>Reading a key through the union store\<close>

lemma IsErrNotFound_simps:
  "\<not> IsErrNotFound None"
  "IsErrNotFound (Some ErrNotExist)"
  "IsErrNotFound (Some (WithStack e)) = IsErrNotFound (Some e)"
  "\<not> IsErrNotFound (Some (OtherError m))"
  by (simp_all add: IsErrNotFound_def)

text \<open>
  C1. \<^verbatim>\<open>Get\<close> looks the key up in the buffer first. It looks it up in the snapshot
  as well exactly when the error of the buffer is (or wraps) \<^verbatim>\<open>ErrNotExist\<close>; any
  other error of the buffer is returned with the buffer's value, unchanged. With
  \<open>(v, err)\<close> the result of the lookup made last: an error is returned as it is;
  without an error an empty \<open>v\<close> gives \<^verbatim>\<open>nil\<close> and \<^verbatim>\<open>ErrNotExist\<close>, and a \<open>v\<close> that is
  not empty is returned.
\<close>

theorem Get_buffer_then_snapshot:
  "(let b = mb_Get (memBuffer us) (mb_state (memBuffer us)) ctx k;
        s = snap_Get (snapshot us) ctx k;
        fallback = IsErrNotFound (snd b);
        final = (if fallback then s else b)
    in snd (Get us ctx k) = (if fallback then [BufferGet k, SnapshotGet k] else [BufferGet k])
       \<and> (snd b \<noteq> None \<and> \<not> fallback \<longrightarrow> fst (Get us ctx k) = b)
       \<and> (snd final \<noteq> None \<longrightarrow> fst (Get us ctx k) = final)
       \<and> (snd final = None \<and> len (fst final) = 0 \<longrightarrow> fst (Get us ctx k) = (None, Some ErrNotExist))
       \<and> (snd final = None \<and> len (fst final) \<noteq> 0 \<longrightarrow> fst (Get us ctx k) = (fst final, None)))"
  by (auto simp: Get_def Let_def split: prod.splits)

theorem Get_buffer_then_snapshot_witness:
  "Get ex_store () [97] = ((Some [66], None), [BufferGet [97]])
   \<and> Get ex_store () [98] = ((None, Some ErrNotExist), [BufferGet [98]])
   \<and> Get ex_store () [99] = ((Some [83], None), [BufferGet [99], SnapshotGet [99]])
   \<and> Get ex_store () [100] = ((None, Some ErrNotExist), [BufferGet [100], SnapshotGet [100]])
   \<and> Get (NewUnionStore (failing_buffer ex_memdb) ex_snapshot) () [97] =
        ((None, Some (OtherError ''flush failed'')), [BufferGet [97]])"
proof -
  have v: "vlog ex_memdb = [([97], [66]), ([98], [])]"
    by (simp add: ex_memdb_def memdb_Delete_def memdb_Set_def empty_memdb_def bump_def materialize_def)
  have b: "mb_Get (memBuffer ex_store) (mb_state (memBuffer ex_store)) () [97] = (Some [66], None)"
    "mb_Get (memBuffer ex_store) (mb_state (memBuffer ex_store)) () [98] = (Some [], None)"
    "mb_Get (memBuffer ex_store) (mb_state (memBuffer ex_store)) () [99] = (None, Some ErrNotExist)"
    "mb_Get (memBuffer ex_store) (mb_state (memBuffer ex_store)) () [100] = (None, Some ErrNotExist)"
    by (simp_all add: ex_store_def NewUnionStore_def raw_buffer_def memdb_buffer_def v head_of_def)
  have s: "snap_Get (snapshot ex_store) () [99] = (Some [83], None)"
    "snap_Get (snapshot ex_store) () [100] = (None, Some ErrNotExist)"
    by (simp_all add: ex_store_def NewUnionStore_def ex_snapshot_def snapshot_of_def)
  have f: "mb_Get (memBuffer (NewUnionStore (failing_buffer ex_memdb) ex_snapshot))
      (mb_state (memBuffer (NewUnionStore (failing_buffer ex_memdb) ex_snapshot))) () [97]
      = (None, Some (OtherError ''flush failed''))"
    by (simp add: NewUnionStore_def failing_buffer_def memdb_buffer_def)
  show ?thesis
    using Get_buffer_then_snapshot[of ex_store "()" "[97]"]
      Get_buffer_then_snapshot[of ex_store "()" "[98]"]
      Get_buffer_then_snapshot[of ex_store "()" "[99]"]
      Get_buffer_then_snapshot[of ex_store "()" "[100]"]
      Get_buffer_then_snapshot[of "NewUnionStore (failing_buffer ex_memdb) ex_snapshot" "()" "[97]"]
    unfolding b s f
    by (simp add: IsErrNotFound_simps prod_eq_iff)
qed

subsection \<open>Size limits\<close>

lemma memdb_Set_unlimited_entry:
  "entrySizeLimit db = unlimitedSize \<Longrightarrow> snd (memdb_Set db k v) \<noteq> Some (ErrEntryTooLarge lim n)"
  by (simp add: memdb_Set_def)

lemma memdb_Set_unlimited_buffer:
  "bufferSizeLimit db = unlimitedSize \<Longrightarrow> snd (memdb_Set db k v) \<noteq> Some (ErrTxnTooLarge n)"
  by (simp add: memdb_Set_def)

lemma memdb_Set_limited_entry:
  "entrySizeLimit db \<noteq> unlimitedSize \<Longrightarrow>
   (\<exists>n. snd (memdb_Set db k v) = Some (ErrEntryTooLarge (entrySizeLimit db) n))
     = (unat (entrySizeLimit db) < length k + length v)"
  by (simp add: memdb_Set_def)

text \<open>
  C6. \<^verbatim>\<open>SetEntrySizeLimit\<close> hands both limits on to the buffer as they are given,
  but for a limit of 0, in whose place it hands on the sentinel \<^verbatim>\<open>unlimitedSize\<close>.
  On the buffer of the spec a limit given as 0 is thereby disabled: whatever the
  key and the value, \<open>set\<close> does not fail with \<open>EntryTooLarge\<close> (the entry limit
  given as 0), respectively \<open>TxnTooLarge\<close> (the buffer limit given as 0); an entry
  limit other than 0 and the sentinel is the one that \<open>set\<close> enforces.
\<close>

theorem SetEntrySizeLimit_zero_is_unlimited:
  "SetEntrySizeLimit us entryLimit bufferLimit =
     us\<lparr>memBuffer := (memBuffer us)\<lparr>mb_state :=
        mb_SetEntrySizeLimit (memBuffer us) (mb_state (memBuffer us))
          (if entryLimit = 0 then unlimitedSize else entryLimit)
          (if bufferLimit = 0 then unlimitedSize else bufferLimit)\<rparr>\<rparr>
   \<and> (let m = memBuffer (SetEntrySizeLimit (NewUnionStore (memdb_buffer db) snap) 0 bufferLimit)
      in \<forall>k v lim n. snd (mb_Set m (mb_state m) k v) \<noteq> Some (ErrEntryTooLarge lim n))
   \<and> (let m = memBuffer (SetEntrySizeLimit (NewUnionStore (memdb_buffer db) snap) entryLimit 0)
      in \<forall>k v n. snd (mb_Set m (mb_state m) k v) \<noteq> Some (ErrTxnTooLarge n))
   \<and> (let m = memBuffer (SetEntrySizeLimit (NewUnionStore (memdb_buffer db) snap) entryLimit bufferLimit)
      in entryLimit \<noteq> 0 \<and> entryLimit \<noteq> unlimitedSize \<longrightarrow>
         (\<forall>k v. (\<exists>n. snd (mb_Set m (mb_state m) k v) = Some (ErrEntryTooLarge entryLimit n))
                = (unat entryLimit < length k + length v)))"
proof -
  have fwd: "SetEntrySizeLimit us entryLimit bufferLimit =
     us\<lparr>memBuffer := (memBuffer us)\<lparr>mb_state :=
        mb_SetEntrySizeLimit (memBuffer us) (mb_state (memBuffer us))
          (if entryLimit = 0 then unlimitedSize else entryLimit)
          (if bufferLimit = 0 then unlimitedSize else bufferLimit)\<rparr>\<rparr>"
    by (simp add: SetEntrySizeLimit_def Let_def)
  have st: "mb_state (memBuffer (SetEntrySizeLimit (NewUnionStore (memdb_buffer db) snap) e b)) =
      db\<lparr>entrySizeLimit := (if e = 0 then unlimitedSize else e),
         bufferSizeLimit := (if b = 0 then unlimitedSize else b)\<rparr>" for e b
    by (simp add: SetEntrySizeLimit_def NewUnionStore_def memdb_buffer_def memdb_SetEntrySizeLimit_def Let_def)
  have set: "mb_Set (memBuffer (SetEntrySizeLimit (NewUnionStore (memdb_buffer db) snap) e b)) = memdb_Set" for e b
    by (simp add: SetEntrySizeLimit_def NewUnionStore_def memdb_buffer_def Let_def)
  have a: "snd (memdb_Set (db\<lparr>entrySizeLimit := unlimitedSize,
         bufferSizeLimit := (if bufferLimit = 0 then unlimitedSize else bufferLimit)\<rparr>) k v)
       \<noteq> Some (ErrEntryTooLarge lim n)" for k v lim n
    by (rule memdb_Set_unlimited_entry) simp
  have b: "snd (memdb_Set (db\<lparr>entrySizeLimit := (if entryLimit = 0 then unlimitedSize else entryLimit),
         bufferSizeLimit := unlimitedSize\<rparr>) k v) \<noteq> Some (ErrTxnTooLarge n)" for k v n
    by (rule memdb_Set_unlimited_buffer) simp
  have c: "(\<exists>n. snd (memdb_Set (db\<lparr>entrySizeLimit := entryLimit,
         bufferSizeLimit := (if bufferLimit = 0 then unlimitedSize else bufferLimit)\<rparr>) k v)
            = Some (ErrEntryTooLarge entryLimit n)) = (unat entryLimit < length k + length v)"
    if "entryLimit \<noteq> unlimitedSize" for k v
    using memdb_Set_limited_entry[of "db\<lparr>entrySizeLimit := entryLimit,
         bufferSizeLimit := (if bufferLimit = 0 then unlimitedSize else bufferLimit)\<rparr>" k v] that
    by simp
  show ?thesis
    unfolding Let_def st set
    using fwd a b c by simp
qed

theorem SetEntrySizeLimit_zero_is_unlimited_witness:
  "entrySizeLimit (mb_state (memBuffer (SetEntrySizeLimit (NewUnionStore (memdb_buffer empty_memdb) ex_snapshot) 0 0)))
     = unlimitedSize
   \<and> snd (memdb_Set (mb_state (memBuffer (SetEntrySizeLimit (NewUnionStore (memdb_buffer empty_memdb) ex_snapshot) 0 0)))
        [107] (replicate 20 0)) = None
   \<and> snd (memdb_Set (mb_state (memBuffer (SetEntrySizeLimit (NewUnionStore (memdb_buffer empty_memdb) ex_snapshot) 16 0)))
        [107] (replicate 20 0)) = Some (ErrEntryTooLarge 16 21)
   \<and> (16 :: 64 word) \<noteq> 0 \<and> (16 :: 64 word) \<noteq> unlimitedSize"
proof -
  have st: "mb_state (memBuffer (SetEntrySizeLimit (NewUnionStore (memdb_buffer empty_memdb) ex_snapshot) e b)) =
      empty_memdb\<lparr>entrySizeLimit := (if e = 0 then unlimitedSize else e),
         bufferSizeLimit := (if b = 0 then unlimitedSize else b)\<rparr>" for e b
    using SetEntrySizeLimit_zero_is_unlimited[of "NewUnionStore (memdb_buffer empty_memdb) ex_snapshot" e b
        empty_memdb ex_snapshot]
    by (simp add: NewUnionStore_def memdb_buffer_def memdb_SetEntrySizeLimit_def)
  show ?thesis
    unfolding st by (simp add: memdb_Set_def empty_memdb_def unlimitedSize_def)
qed

subsection \<open>The flag PresumeKeyNotExists\<close>

text \<open>
  C9. \<^verbatim>\<open>HasPresumeKeyNotExists\<close> is true exactly when \<^verbatim>\<open>GetFlags\<close> of the buffer
  returns no error and flags that hold \<open>PresumeKeyNotExists\<close>;
  \<^verbatim>\<open>UnmarkPresumeKeyNotExists\<close> applies the delta \<^verbatim>\<open>DelPresumeKeyNotExists\<close> through
  \<^verbatim>\<open>UpdateFlags\<close>. On the buffer of the spec: for a key without a leaf the answer
  is false, after \<^verbatim>\<open>UnmarkPresumeKeyNotExists\<close> it is false, and after the flag was
  added by \<open>update_flags\<close> it is true.
\<close>

theorem HasPresumeKeyNotExists_iff:
  "(HasPresumeKeyNotExists us k \<longleftrightarrow>
      snd (mb_GetFlags (memBuffer us) (mb_state (memBuffer us)) k) = None \<and>
      KeyFlags_HasPresumeKeyNotExists (fst (mb_GetFlags (memBuffer us) (mb_state (memBuffer us)) k)))
   \<and> UnmarkPresumeKeyNotExists us k =
        us\<lparr>memBuffer := (memBuffer us)\<lparr>mb_state :=
          mb_UpdateFlags (memBuffer us) (mb_state (memBuffer us)) k [DelPresumeKeyNotExists]\<rparr>\<rparr>
   \<and> (leaves db k = None \<longrightarrow> \<not> HasPresumeKeyNotExists (NewUnionStore (memdb_buffer db) snap) k)
   \<and> \<not> HasPresumeKeyNotExists (UnmarkPresumeKeyNotExists (NewUnionStore (memdb_buffer db) snap) k) k
   \<and> HasPresumeKeyNotExists
        (NewUnionStore (memdb_buffer (memdb_UpdateFlags db k [SetFlag PresumeKeyNotExists])) snap) k"
  by (auto simp: HasPresumeKeyNotExists_def UnmarkPresumeKeyNotExists_def NewUnionStore_def
      memdb_buffer_def memdb_GetFlags_def memdb_UpdateFlags_def materialize_def bump_def
      KeyFlags_HasPresumeKeyNotExists_def DelPresumeKeyNotExists_def Let_def
      split: prod.splits option.splits)

theorem HasPresumeKeyNotExists_iff_witness:
  "leaves empty_memdb [107] = None
   \<and> \<not> HasPresumeKeyNotExists (NewUnionStore (memdb_buffer empty_memdb) ex_snapshot) [107]
   \<and> HasPresumeKeyNotExists (NewUnionStore
        (memdb_buffer (memdb_UpdateFlags empty_memdb [107] [SetFlag PresumeKeyNotExists])) ex_snapshot) [107]
   \<and> \<not> HasPresumeKeyNotExists (UnmarkPresumeKeyNotExists (NewUnionStore
        (memdb_buffer (memdb_UpdateFlags empty_memdb [107] [SetFlag PresumeKeyNotExists])) ex_snapshot) [107]) [107]
   \<and> fst (memdb_Get (memdb_UpdateFlags empty_memdb [107] [SetFlag PresumeKeyNotExists]) () [107]) = None"
proof -
  let ?db = "memdb_UpdateFlags empty_memdb [107] [SetFlag PresumeKeyNotExists]"
  have l: "leaves empty_memdb [107] = None" by (simp add: empty_memdb_def)
  note t1 = HasPresumeKeyNotExists_iff[where db = empty_memdb and k = "[107]" and snap = ex_snapshot
        and us = "NewUnionStore (memdb_buffer empty_memdb) ex_snapshot"]
  note t2 = HasPresumeKeyNotExists_iff[where db = ?db and k = "[107]" and snap = ex_snapshot
        and us = "NewUnionStore (memdb_buffer empty_memdb) ex_snapshot"]
  from t1 l have a: "\<not> HasPresumeKeyNotExists (NewUnionStore (memdb_buffer empty_memdb) ex_snapshot) [107]"
    by blast
  from t1 have b: "HasPresumeKeyNotExists (NewUnionStore (memdb_buffer ?db) ex_snapshot) [107]"
    by blast
  from t2 have c: "\<not> HasPresumeKeyNotExists (UnmarkPresumeKeyNotExists
      (NewUnionStore (memdb_buffer ?db) ex_snapshot) [107]) [107]"
    by blast
  have d: "fst (memdb_Get ?db () [107]) = None"
    by (simp add: memdb_Get_def memdb_UpdateFlags_def materialize_def bump_def empty_memdb_def head_of_def)
  show ?thesis
    using l a b c d by blast
qed

subsection \<open>Iterators of the buffer and the generation counter\<close>








lemma advance_returns:
  "it_generation it0 = generation db \<Longrightarrow> \<exists>it. advance db n it0 = Inr it"
proof (induction n arbitrary: it0)
  case 0
  show ?case by simp
next
  case (Suc n)
  let ?it = "it0\<lparr>it_entries := tl (it_entries it0)\<rparr>"
  from Suc.prems have "it_Next db it0 = Inr ?it" by (simp add: it_Next_def)
  moreover from Suc.prems have "it_generation ?it = generation db" by simp
  from Suc.IH[OF this] obtain it where "advance db n ?it = Inr it" by blast
  ultimately show ?case by simp
qed



section \<open>Properties of the range task runner\<close>

subsection \<open>The loop that sends the tasks\<close>























subsection \<open>The workers and the error returned\<close>




lemma first_err_first:
  "first_err ws = (case filter (\<lambda>w. w_err w \<noteq> None) ws of
                     [] \<Rightarrow> None
                   | w # rest \<Rightarrow> Some (WithStack (the (w_err w))))"
  by (induction ws) (auto split: option.splits)





end
